theory Spec2Isabelle
  imports Complex_Main "HOL-Library.AList"
begin

section \<open>JavaScript values and the operators the code applies to them\<close>

text \<open>
  The attribute bag of a node is typed \<^verbatim>\<open>{ [key: string]: any }\<close>, so the layout
  and diff code works on dynamically typed values. The value universe follows the data
  model: strings, numbers, booleans, nested objects, plus \<^verbatim>\<open>undefined\<close> and
  \<^verbatim>\<open>null\<close>. A number is a double: a finite one is the rational it denotes
  (\<open>JNum\<close>), next to the two infinities (\<open>JInf True\<close> is \<^verbatim>\<open>Infinity\<close>, \<open>JInf False\<close>
  is \<^verbatim>\<open>-Infinity\<close>) and \<^verbatim>\<open>NaN\<close>; the negative zero is not told from zero, which no
  operator the code uses does either. Strings are lists of 8-bit characters. An object
  carries the identity of its reference (\<^verbatim>\<open>===\<close> compares references) next to its own
  properties; nested objects are plain objects, which do not shadow \<^verbatim>\<open>toString\<close> or
  \<^verbatim>\<open>valueOf\<close>.
\<close>

datatype jsval =
    JUndefined
  | JNull
  | JBool bool
  | JNum rat
  | JInf bool
  | JNaN
  | JStr string
  | JObj nat "(string \<times> jsval) list"

text \<open>
  The result of a numeric conversion, and the operands of the arithmetic.
\<close>

datatype number = Finite rat | Infinite bool | NotANumber

text \<open>
  Three functions belong to the JavaScript runtime and not to the repository: reading a
  string as a number (\<^verbatim>\<open>StringToNumber\<close>), printing a finite number
  (\<^verbatim>\<open>Number::toString\<close>), and rounding the exact result of an addition or a
  multiplication of two finite numbers to a double (\<open>to_double\<close>, \<open>None\<close> when the result
  overflows, which gives the infinity of its sign). Every function that coerces or
  calculates takes them as a parameter, and what is proved below holds for every choice
  of them.
\<close>

record js_runtime =
  string_to_number :: "string \<Rightarrow> number"
  number_to_string :: "rat \<Rightarrow> string"
  to_double :: "rat \<Rightarrow> rat option"

fun truthy :: "jsval \<Rightarrow> bool" where
  "truthy JUndefined = False"
| "truthy JNull = False"
| "truthy (JBool b) = b"
| "truthy (JNum r) = (r \<noteq> 0)"
| "truthy (JInf s) = True"
| "truthy JNaN = False"
| "truthy (JStr s) = (s \<noteq> [])"
| "truthy (JObj a ps) = True"

definition js_or :: "jsval \<Rightarrow> jsval \<Rightarrow> jsval" where
  \<comment> \<open>\<^verbatim>\<open>a || b\<close>\<close>
  "js_or a b = (if truthy a then a else b)"

fun to_primitive :: "jsval \<Rightarrow> jsval" where
  "to_primitive (JObj a ps) = JStr ''[object Object]''"
| "to_primitive v = v"

fun to_number :: "js_runtime \<Rightarrow> jsval \<Rightarrow> number" where
  "to_number rt JUndefined = NotANumber"
| "to_number rt JNull = Finite 0"
| "to_number rt (JBool b) = Finite (if b then 1 else 0)"
| "to_number rt (JNum r) = Finite r"
| "to_number rt (JInf s) = Infinite s"
| "to_number rt JNaN = NotANumber"
| "to_number rt (JStr s) = string_to_number rt s"
| "to_number rt (JObj a ps) = string_to_number rt ''[object Object]''"

fun to_string :: "js_runtime \<Rightarrow> jsval \<Rightarrow> string" where
  "to_string rt JUndefined = ''undefined''"
| "to_string rt JNull = ''null''"
| "to_string rt (JBool b) = (if b then ''true'' else ''false'')"
| "to_string rt (JNum r) = number_to_string rt r"
| "to_string rt (JInf s) = (if s then ''Infinity'' else ''-Infinity'')"
| "to_string rt JNaN = ''NaN''"
| "to_string rt (JStr s) = s"
| "to_string rt (JObj a ps) = ''[object Object]''"

fun number_value :: "number \<Rightarrow> jsval" where
  "number_value (Finite r) = JNum r"
| "number_value (Infinite s) = JInf s"
| "number_value NotANumber = JNaN"

definition rounded :: "js_runtime \<Rightarrow> rat \<Rightarrow> number" where
  \<comment> \<open>the double of an exact result\<close>
  "rounded rt r = (case to_double rt r of Some q \<Rightarrow> Finite q | None \<Rightarrow> Infinite (0 < r))"

fun number_add :: "js_runtime \<Rightarrow> number \<Rightarrow> number \<Rightarrow> number" where
  "number_add rt (Finite p) (Finite q) = rounded rt (p + q)"
| "number_add rt (Finite p) (Infinite t) = Infinite t"
| "number_add rt (Infinite s) (Finite q) = Infinite s"
| "number_add rt (Infinite s) (Infinite t) = (if s = t then Infinite s else NotANumber)"
| "number_add rt NotANumber y = NotANumber"
| "number_add rt x NotANumber = NotANumber"

fun number_mul :: "js_runtime \<Rightarrow> number \<Rightarrow> number \<Rightarrow> number" where
  "number_mul rt (Finite p) (Finite q) = rounded rt (p * q)"
| "number_mul rt (Finite p) (Infinite t) = (if p = 0 then NotANumber else Infinite (t = (0 < p)))"
| "number_mul rt (Infinite s) (Finite q) = (if q = 0 then NotANumber else Infinite (s = (0 < q)))"
| "number_mul rt (Infinite s) (Infinite t) = Infinite (s = t)"
| "number_mul rt NotANumber y = NotANumber"
| "number_mul rt x NotANumber = NotANumber"

fun number_less :: "number \<Rightarrow> number \<Rightarrow> bool" where
  \<comment> \<open>\<^verbatim>\<open>x < y\<close> on numbers: false as soon as one is \<^verbatim>\<open>NaN\<close>\<close>
  "number_less (Finite p) (Finite q) = (p < q)"
| "number_less (Finite p) (Infinite t) = t"
| "number_less (Infinite s) (Finite q) = (\<not> s)"
| "number_less (Infinite s) (Infinite t) = (\<not> s \<and> t)"
| "number_less NotANumber y = False"
| "number_less x NotANumber = False"

fun number_le :: "number \<Rightarrow> number \<Rightarrow> bool" where
  \<comment> \<open>\<^verbatim>\<open>x <= y\<close> on numbers: false as soon as one is \<^verbatim>\<open>NaN\<close>\<close>
  "number_le (Finite p) (Finite q) = (p \<le> q)"
| "number_le (Finite p) (Infinite t) = t"
| "number_le (Infinite s) (Finite q) = (\<not> s)"
| "number_le (Infinite s) (Infinite t) = (\<not> s \<or> t)"
| "number_le NotANumber y = False"
| "number_le x NotANumber = False"

fun is_string :: "jsval \<Rightarrow> bool" where
  "is_string (JStr s) = True"
| "is_string v = False"

fun string_less :: "string \<Rightarrow> string \<Rightarrow> bool" where
  \<comment> \<open>comparison of two strings by code units\<close>
  "string_less [] [] = False"
| "string_less [] (d # ds) = True"
| "string_less (c # cs) [] = False"
| "string_less (c # cs) (d # ds) =
     ((of_char c :: nat) < of_char d \<or> (c = d \<and> string_less cs ds))"

definition js_mul :: "js_runtime \<Rightarrow> jsval \<Rightarrow> jsval \<Rightarrow> jsval" where
  \<comment> \<open>\<^verbatim>\<open>a * b\<close>\<close>
  "js_mul rt a b =
     number_value (number_mul rt (to_number rt a) (to_number rt b))"

definition js_add :: "js_runtime \<Rightarrow> jsval \<Rightarrow> jsval \<Rightarrow> jsval" where
  \<comment> \<open>\<^verbatim>\<open>a + b\<close>: concatenation as soon as one operand is a string\<close>
  "js_add rt a b =
     (let pa = to_primitive a; pb = to_primitive b in
      if is_string pa \<or> is_string pb then JStr (to_string rt pa @ to_string rt pb)
      else number_value (number_add rt (to_number rt pa) (to_number rt pb)))"

definition js_gt :: "js_runtime \<Rightarrow> jsval \<Rightarrow> jsval \<Rightarrow> bool" where
  \<comment> \<open>\<^verbatim>\<open>a > b\<close>\<close>
  "js_gt rt a b =
     (case (to_primitive a, to_primitive b) of
        (JStr s, JStr t) \<Rightarrow> string_less t s
      | (pa, pb) \<Rightarrow> number_less (to_number rt pb) (to_number rt pa))"

definition js_ge :: "js_runtime \<Rightarrow> jsval \<Rightarrow> jsval \<Rightarrow> bool" where
  \<comment> \<open>\<^verbatim>\<open>a >= b\<close>\<close>
  "js_ge rt a b =
     (case (to_primitive a, to_primitive b) of
        (JStr s, JStr t) \<Rightarrow> \<not> string_less s t
      | (pa, pb) \<Rightarrow> number_le (to_number rt pb) (to_number rt pa))"

fun strict_eq :: "jsval \<Rightarrow> jsval \<Rightarrow> bool" where
  \<comment> \<open>\<^verbatim>\<open>a === b\<close>: objects by reference, \<^verbatim>\<open>NaN\<close> equal to nothing\<close>
  "strict_eq JUndefined JUndefined = True"
| "strict_eq JNull JNull = True"
| "strict_eq (JBool a) (JBool b) = (a = b)"
| "strict_eq (JNum a) (JNum b) = (a = b)"
| "strict_eq (JInf a) (JInf b) = (a = b)"
| "strict_eq (JStr a) (JStr b) = (a = b)"
| "strict_eq (JObj a ps) (JObj b qs) = (a = b)"
| "strict_eq v w = False"

section \<open>Objects as association lists\<close>

type_synonym props = "(string \<times> jsval) list"

definition get :: "props \<Rightarrow> string \<Rightarrow> jsval" where
  \<comment> \<open>\<^verbatim>\<open>obj[k]\<close>: a missing property reads as \<^verbatim>\<open>undefined\<close>\<close>
  "get ps k = (case map_of ps k of None \<Rightarrow> JUndefined | Some v \<Rightarrow> v)"

definition put :: "string \<Rightarrow> jsval \<Rightarrow> props \<Rightarrow> props" where
  \<comment> \<open>\<^verbatim>\<open>obj[k] = v\<close>\<close>
  "put k v ps = AList.update k v ps"

definition spread :: "props \<Rightarrow> props \<Rightarrow> props" where
  \<comment> \<open>\<^verbatim>\<open>{ ...a, ...b }\<close>\<close>
  "spread a b = fold (\<lambda>(k, v). put k v) b a"

definition object_keys :: "props \<Rightarrow> string list" where
  \<comment> \<open>\<^verbatim>\<open>Object.keys(obj)\<close>\<close>
  "object_keys ps = map fst ps"

fun js_length :: "jsval \<Rightarrow> jsval" where
  \<comment> \<open>\<^verbatim>\<open>v.length\<close> of a truthy value\<close>
  "js_length (JStr s) = JNum (of_nat (length s))"
| "js_length (JObj a ps) = get ps ''length''"
| "js_length v = JUndefined"

section \<open>The node structure\<close>

record bbox =
  box_x :: jsval
  box_y :: jsval
  box_width :: jsval
  box_height :: jsval

record offset =
  off_x :: jsval
  off_y :: jsval

text \<open>
  \<^verbatim>\<open>NodeInstructure\<close>: \<open>children\<close> and \<open>bbox\<close> are absent (\<open>None\<close>) until
  the tree builder, respectively the layout resolver, sets them.
\<close>

datatype node =
  Node (ntype: string) (attrs: props) (children: "node list option") (bbox: "bbox option")

section \<open>Layout resolver\<close>

definition switch_type ::
  "js_runtime \<Rightarrow> node \<Rightarrow> bbox \<Rightarrow> jsval \<times> jsval \<times> bbox \<times> node" where
  \<comment> \<open>the \<^verbatim>\<open>switch (node.type)\<close> of \<^verbatim>\<open>getBBox\<close>: (shapeHeight, shapeWidth) with the
      box and the node as the \<^verbatim>\<open>text\<close> case leaves them\<close>
  "switch_type rt node b =
     (let a = attrs node in
      if ntype node = ''maker'' \<or> ntype node = ''circle'' then
        (if truthy (get a ''r'')
         then (js_mul rt (JNum 2) (get a ''r''), js_mul rt (JNum 2) (get a ''r''), b, node)
         else (JUndefined, JUndefined, b, node))
      else if ntype node = ''ellipse'' then
        (if truthy (get a ''rx'') \<and> truthy (get a ''ry'')
         then (js_mul rt (JNum 2) (get a ''ry''), js_mul rt (JNum 2) (get a ''rx''), b, node)
         else (JUndefined, JUndefined, b, node))
      else if ntype node = ''text'' then
        (if truthy (get a ''text'')
         then (JNum 16,
               js_mul rt (js_length (get a ''text'')) (get a ''length''),
               b\<lparr>box_y := js_add rt (box_y b) (JNum 16)\<rparr>,
               Node (ntype node)
                 (spread [(''fontSize'', JNum 12), (''fill'', JStr ''#000'')] a)
                 (children node) (bbox node))
         else (JUndefined, JUndefined, b, node))
      else
        (if truthy (get a ''height'') then get a ''height'' else JUndefined,
         if truthy (get a ''width'') then get a ''width'' else JUndefined,
         b, node))"

definition getBBox :: "js_runtime \<Rightarrow> node \<Rightarrow> offset \<Rightarrow> bbox \<Rightarrow> bbox \<times> node" where
  \<comment> \<open>returns the box and the node, whose \<open>attrs\<close> the \<^verbatim>\<open>text\<close> case replaces\<close>
  "getBBox rt node offs chilrenBBox =
     (let a = attrs node;
          b0 = \<lparr>box_x = js_or (off_x offs) (JNum 0),
                box_y = js_or (off_y offs) (JNum 0),
                box_width = js_or (box_width chilrenBBox) (JNum 0),
                box_height = js_or (box_height chilrenBBox) (JNum 0)\<rparr>;
          (shapeHeight, shapeWidth, b1, node1) = switch_type rt node b0;
          b2 = (if js_ge rt shapeHeight (JNum 0) then b1\<lparr>box_height := shapeHeight\<rparr> else b1);
          b3 = (if js_ge rt shapeWidth (JNum 0) then b2\<lparr>box_width := shapeWidth\<rparr> else b2);
          b4 = (if truthy (get a ''marginTop'')
                then b3\<lparr>box_y := js_add rt (box_y b3) (get a ''marginTop'')\<rparr> else b3);
          b5 = (if truthy (get a ''marginLeft'')
                then b4\<lparr>box_x := js_add rt (box_x b4) (get a ''marginLeft'')\<rparr> else b4)
      in (b5, node1))"

definition bbox_props :: "bbox \<Rightarrow> props" where
  "bbox_props b =
     [(''x'', box_x b), (''y'', box_y b), (''width'', box_width b), (''height'', box_height b)]"

definition child_key :: "js_runtime \<Rightarrow> props \<Rightarrow> nat \<Rightarrow> jsval" where
  \<comment> \<open>\<^verbatim>\<open>(attrs.key || 'root') + '-' + index\<close>\<close>
  "child_key rt a index =
     js_add rt (js_add rt (js_or (get a ''key'') (JStr ''root'')) (JStr ''-''))
       (JNum (of_nat index))"

definition grow_box :: "js_runtime \<Rightarrow> bbox \<Rightarrow> bbox \<Rightarrow> bbox" where
  \<comment> \<open>the two updates of \<^verbatim>\<open>defaultBbox\<close> after a child has been resolved\<close>
  "grow_box rt b d =
     (let d1 = (if js_gt rt (js_add rt (box_width b) (box_x b)) (box_width d)
                then d\<lparr>box_width := js_add rt (box_width b) (box_x b)\<rparr> else d)
      in if js_gt rt (js_add rt (box_height b) (box_y b)) (box_height d1)
         then d1\<lparr>box_height := js_add rt (box_height b) (box_y b)\<rparr> else d1)"

text \<open>
  \<^verbatim>\<open>generateTarget\<close> with its \<^verbatim>\<open>for\<close> loop over the children as a second function:
  the loop carries the index, the running offset and \<^verbatim>\<open>defaultBbox\<close>, and returns the
  children as the recursive calls have rewritten them.
\<close>

fun generateTarget :: "js_runtime \<Rightarrow> node \<Rightarrow> offset \<Rightarrow> node"
  and generate_children ::
    "js_runtime \<Rightarrow> props \<Rightarrow> nat \<Rightarrow> node list \<Rightarrow> offset \<Rightarrow> bbox \<Rightarrow> node list \<times> offset \<times> bbox"
where
  "generateTarget rt (Node t a cs b) lastOffset =
     (let defaultBbox = \<lparr>box_x = off_x lastOffset, box_y = off_y lastOffset,
                         box_width = JNum 0, box_height = JNum 0\<rparr>;
          (cs1, defaultBbox1) =
            (case cs of
               Some (c # rest) \<Rightarrow>
                 (let offset = (if truthy (get a ''marginTop'')
                                then lastOffset\<lparr>off_y := js_add rt (off_y lastOffset) (get a ''marginTop'')\<rparr>
                                else lastOffset);
                      (kids, offset1, d) = generate_children rt a 0 (c # rest) offset defaultBbox
                  in (Some kids, d))
             | _ \<Rightarrow> (cs, defaultBbox));
          (bb, target1) = getBBox rt (Node t a cs1 b) lastOffset defaultBbox1
      in Node (ntype target1) (spread (attrs target1) (bbox_props bb)) (children target1) (Some bb))"
| "generate_children rt a index [] offset defaultBbox = ([], offset, defaultBbox)"
| "generate_children rt a index (Node t ca ccs cb # rest) offset defaultBbox =
     (let node = generateTarget rt (Node t (put ''key'' (child_key rt a index) ca) ccs cb) offset;
          (offset1, defaultBbox1) =
            (case bbox node of
               None \<Rightarrow> (offset, defaultBbox)
             | Some bb \<Rightarrow>
                 (offset\<lparr>off_y := js_add rt (off_y offset) (box_height bb)\<rparr>,
                  grow_box rt bb defaultBbox));
          (rest1, offset2, defaultBbox2) =
            generate_children rt a (Suc index) rest offset1 defaultBbox1
      in (node # rest1, offset2, defaultBbox2))"

section \<open>Diff engine\<close>

text \<open>
  The objects \<^verbatim>\<open>compareTwoTarget\<close> returns, one constructor for each shape of object
  literal in the source, with the fields that literal has. A field a literal does not
  have reads as \<^verbatim>\<open>undefined\<close>.
\<close>

datatype diff =
    DAbsent
    \<comment> \<open>\<^verbatim>\<open>{ action: 'same', type }\<close> for two absent nodes: \<^verbatim>\<open>type\<close> is \<^verbatim>\<open>undefined\<close>\<close>
  | DDelete node jsval
    \<comment> \<open>\<^verbatim>\<open>{ action: 'delete', val, type, key }\<close>: \<^verbatim>\<open>type\<close> is \<^verbatim>\<open>undefined\<close>\<close>
  | DAdd node string
    \<comment> \<open>\<^verbatim>\<open>{ action: 'add', val, type }\<close>\<close>
  | DRestructure node node jsval "diff list"
    \<comment> \<open>\<^verbatim>\<open>{ action: 'restructure', nowTarget, formerTarget, key, children }\<close>\<close>
  | DChange node "diff list" string jsval
    \<comment> \<open>\<^verbatim>\<open>{ action: 'change', val, children, type, key }\<close>\<close>
  | DSame "diff list" string jsval
    \<comment> \<open>\<^verbatim>\<open>{ action: 'same', children, type, key }\<close>\<close>

fun diff_action :: "diff \<Rightarrow> string" where
  "diff_action DAbsent = ''same''"
| "diff_action (DDelete v k) = ''delete''"
| "diff_action (DAdd v t) = ''add''"
| "diff_action (DRestructure n f k ds) = ''restructure''"
| "diff_action (DChange v ds t k) = ''change''"
| "diff_action (DSame ds t k) = ''same''"

fun diff_children :: "diff \<Rightarrow> diff list option" where
  "diff_children (DRestructure n f k ds) = Some ds"
| "diff_children (DChange v ds t k) = Some ds"
| "diff_children (DSame ds t k) = Some ds"
| "diff_children d = None"

fun diff_type :: "diff \<Rightarrow> string option" where
  "diff_type (DAdd v t) = Some t"
| "diff_type (DChange v ds t k) = Some t"
| "diff_type (DSame ds t k) = Some t"
| "diff_type d = None"

definition attrs_changed :: "props \<Rightarrow> props \<Rightarrow> bool" where
  \<comment> \<open>the test of the \<^verbatim>\<open>change\<close> verdict, on \<^verbatim>\<open>nowTarget.attrs\<close> and \<^verbatim>\<open>formerTarget.attrs\<close>\<close>
  "attrs_changed now_attrs former_attrs =
     list_ex (\<lambda>e. \<not> strict_eq (get now_attrs e) (get former_attrs e) \<or> e \<notin> set (object_keys now_attrs))
       (filter (\<lambda>e. e \<noteq> ''children'') (object_keys former_attrs))"

text \<open>
  \<^verbatim>\<open>compareTwoTarget\<close> assigns \<^verbatim>\<open>nowTarget.attrs.key\<close>, and the objects it returns
  refer to nodes of both trees. So the state is the pair of trees, which share no object:
  the model takes both and returns both as the call leaves them, next to the diff, and the
  payloads of the diff are those nodes. The previous tree goes through the recursion like
  the current one; the source has no assignment to it. \<open>compare_nodes\<close> is the body for
  two present nodes and \<open>compare_children\<close> its loop; \<^verbatim>\<open>Math.max\<close> of a length that is
  \<^verbatim>\<open>undefined\<close> is \<^verbatim>\<open>NaN\<close>, and \<^verbatim>\<open>index < NaN\<close> is false, so the loop runs only
  when both nodes have a \<open>children\<close> field, and then \<open>max\<close> of the two lengths times,
  reading past the end of the shorter array as \<^verbatim>\<open>undefined\<close>.
\<close>

fun compare_nodes :: "node \<Rightarrow> node \<Rightarrow> diff \<times> node \<times> node"
  and compare_children :: "node list \<Rightarrow> node list \<Rightarrow> diff list \<times> node list \<times> node list"
where
  "compare_nodes (Node t a cs b) formerTarget =
     (let key = get (attrs formerTarget) ''key'';
          a1 = (if truthy key then put ''key'' key a else a);
          (children1, cs1, fcs1) =
            (if (case cs of Some (c # rest) \<Rightarrow> True | _ \<Rightarrow> False)
                \<or> (case children formerTarget of Some (c # rest) \<Rightarrow> True | _ \<Rightarrow> False)
             then (case cs of
                     Some nowChilren \<Rightarrow>
                       (case children formerTarget of
                          Some formerChilren \<Rightarrow>
                            (let (ds, now1, former1) = compare_children nowChilren formerChilren
                             in (ds, Some now1, Some former1))
                        | None \<Rightarrow> ([], cs, None))
                   | None \<Rightarrow> ([], cs, children formerTarget))
             else ([], cs, children formerTarget));
          nowTarget = Node t a1 cs1 b;
          formerTarget1 = Node (ntype formerTarget) (attrs formerTarget) fcs1 (bbox formerTarget)
      in if ntype formerTarget \<noteq> t then
           (DRestructure nowTarget formerTarget1 key children1, nowTarget, formerTarget1)
         else if attrs_changed a1 (attrs formerTarget) then
           (DChange nowTarget children1 t key, nowTarget, formerTarget1)
         else (DSame children1 t key, nowTarget, formerTarget1))"
| "compare_children [] [] = ([], [], [])"
| "compare_children (n # ns) [] =
     (let (ds, ns1, fs1) = compare_children ns [] in (DAdd n (ntype n) # ds, n # ns1, fs1))"
| "compare_children [] (f # fs) =
     (let (ds, ns1, fs1) = compare_children [] fs
      in (DDelete f (get (attrs f) ''key'') # ds, ns1, f # fs1))"
| "compare_children (n # ns) (f # fs) =
     (let (d, n1, f1) = compare_nodes n f;
          (ds, ns1, fs1) = compare_children ns fs
      in (d # ds, n1 # ns1, f1 # fs1))"

definition compareTwoTarget ::
  "node option \<Rightarrow> node option \<Rightarrow> diff \<times> node option \<times> node option" where
  "compareTwoTarget nowTarget formerTarget =
     (case (nowTarget, formerTarget) of
        (None, Some f) \<Rightarrow> (DDelete f (get (attrs f) ''key''), None, Some f)
      | (Some n, None) \<Rightarrow> (DAdd n (ntype n), Some n, None)
      | (None, None) \<Rightarrow> (DAbsent, None, None)
      | (Some n, Some f) \<Rightarrow> (let (d, n1, f1) = compare_nodes n f in (d, Some n1, Some f1)))"

section \<open>Patch engine\<close>

text \<open>
  Modelled from the spec: the host rendering surface (the container of the graphics
  library, which is not part of the repository). It holds the shapes created so far, in
  order; \<open>calls\<close> records every call the patch pass issues. \<^verbatim>\<open>removeChild\<close> is recorded
  with the shape it is given, \<open>None\<close> when it is given \<^verbatim>\<open>undefined\<close>.
\<close>

record shape =
  shape_type :: string
  shape_attrs :: props

datatype host_call =
    AddShape string props
  | RemoveChild "shape option"
  | Attr shape props

record container =
  shapes :: "shape list"
  calls :: "host_call list"

definition host_addShape :: "string \<Rightarrow> props \<Rightarrow> container \<Rightarrow> container" where
  "host_addShape t a c =
     c\<lparr>shapes := shapes c @ [\<lparr>shape_type = t, shape_attrs = a\<rparr>],
       calls := calls c @ [AddShape t a]\<rparr>"

definition host_removeChild :: "shape option \<Rightarrow> container \<Rightarrow> container" where
  "host_removeChild s c =
     c\<lparr>shapes := (case s of None \<Rightarrow> shapes c | Some e \<Rightarrow> remove1 e (shapes c)),
       calls := calls c @ [RemoveChild s]\<rparr>"

definition host_attr :: "shape \<Rightarrow> props \<Rightarrow> container \<Rightarrow> container" where
  "host_attr s a c =
     c\<lparr>shapes := map (\<lambda>e. if e = s then e\<lparr>shape_attrs := spread (shape_attrs e) a\<rparr> else e)
                    (shapes c),
       calls := calls c @ [Attr s a]\<rparr>"

definition find_shape :: "jsval \<Rightarrow> container \<Rightarrow> shape option" where
  \<comment> \<open>\<^verbatim>\<open>children.find(e => e.attrs.key === key)\<close>\<close>
  "find_shape key c = List.find (\<lambda>e. strict_eq (get (shape_attrs e) ''key'') key) (shapes c)"

fun renderTarget :: "node \<Rightarrow> container \<Rightarrow> container" where
  \<comment> \<open>the initial draw; the \<^verbatim>\<open>origin\<close> record it passes along and the key shape it
      picks are not modelled\<close>
  "renderTarget (Node t a cs b) c =
     (let c1 = (if t \<noteq> ''group'' then host_addShape t a c else c)
      in case cs of Some l \<Rightarrow> fold renderTarget l c1 | None \<Rightarrow> c1)"

fun addShape :: "node \<Rightarrow> container \<Rightarrow> container" where
  "addShape (Node t a cs b) c =
     (let c1 = host_addShape t a c
      in case cs of Some l \<Rightarrow> fold addShape l c1 | None \<Rightarrow> c1)"

fun delShape :: "node \<Rightarrow> container \<Rightarrow> container" where
  "delShape (Node t a cs b) c =
     (let targetShape = find_shape (get a ''key'') c;
          c1 = host_removeChild targetShape c
      in case cs of Some l \<Rightarrow> fold delShape l c1 | None \<Rightarrow> c1)"

fun updateTarget :: "diff \<Rightarrow> container \<Rightarrow> container" where
  "updateTarget DAbsent c = c"
| "updateTarget (DDelete v key) c = delShape v c"
| "updateTarget (DAdd v t) c = (if t \<noteq> ''group'' then addShape v c else c)"
| "updateTarget (DRestructure nowTarget formerTarget key ds) c =
     fold updateTarget ds (addShape nowTarget (delShape formerTarget c))"
| "updateTarget (DChange v ds t key) c =
     fold updateTarget ds
       (if t \<noteq> ''group'' then
          (case find_shape key c of
             Some targetShape \<Rightarrow> host_attr targetShape (attrs v) c
           | None \<Rightarrow> c)
        else c)"
| "updateTarget (DSame ds t key) c = fold updateTarget ds c"

section \<open>Template interpolation\<close>

fun split_braces :: "string \<Rightarrow> string \<Rightarrow> string list" where
  \<comment> \<open>\<^verbatim>\<open>xml.split(/{{|}}/g)\<close>; the first argument is the piece read so far, reversed\<close>
  "split_braces acc [] = [rev acc]"
| "split_braces acc [c] = [rev (c # acc)]"
| "split_braces acc (c # d # rest) =
     (if (c = CHR ''{'' \<and> d = CHR ''{'') \<or> (c = CHR ''}'' \<and> d = CHR ''}'')
      then rev acc # split_braces [] rest
      else split_braces (c # acc) (d # rest))"

definition is_space :: "char \<Rightarrow> bool" where
  \<comment> \<open>the white space and line terminators of \<^verbatim>\<open>trim\<close> among the 8-bit characters\<close>
  "is_space c = ((of_char c :: nat) \<in> {9, 10, 11, 12, 13, 32, 160})"

definition trim :: "string \<Rightarrow> string" where
  "trim s = rev (dropWhile is_space (rev (dropWhile is_space s)))"

definition is_word_char :: "char \<Rightarrow> bool" where
  \<comment> \<open>\<^verbatim>\<open>\w\<close>\<close>
  "is_word_char c =
     (let n = (of_char c :: nat)
      in (48 \<le> n \<and> n \<le> 57) \<or> (65 \<le> n \<and> n \<le> 90) \<or> n = 95 \<or> (97 \<le> n \<and> n \<le> 122))"

definition is_path :: "string \<Rightarrow> bool" where
  \<comment> \<open>\<^verbatim>\<open>/^[\w.]+$/g.test(s)\<close>\<close>
  "is_path s = (s \<noteq> [] \<and> list_all (\<lambda>c. is_word_char c \<or> c = CHR ''.'') s)"

text \<open>
  The data object is read only through \<^verbatim>\<open>lodash.get(data, path, text)\<close>, and the result
  only through \<^verbatim>\<open>join('')\<close>. It is modelled by what the two together give for a path:
  \<open>Some\<close> of the string \<^verbatim>\<open>join\<close> prints for the value found, \<open>None\<close> when the value at the
  path is \<^verbatim>\<open>undefined\<close> and \<^verbatim>\<open>lodash.get\<close> returns its default.
\<close>

definition xmlDataRenderer :: "string \<Rightarrow> (string \<Rightarrow> string option) \<Rightarrow> string" where
  "xmlDataRenderer xml data =
     concat (map (\<lambda>text. if is_path (trim text)
                          then (case data (trim text) of Some v \<Rightarrow> v | None \<Rightarrow> text)
                          else text)
               (split_braces [] xml))"

section \<open>Tree builder\<close>

datatype element =
  Element (tagName: string) (attributes: "(string \<times> string) list") (innerText: string)
    (elements: "element list")

datatype js_error = SyntaxError string

text \<open>
  The object \<^verbatim>\<open>parseXML\<close> builds gets its properties by name, \<^verbatim>\<open>rst[key] = ...\<close>, so it
  is an association list here: a property holds a parsed or raw attribute value, the
  attribute bag, or the array of children.
\<close>

datatype xnode = XNode "(string \<times> xprop) list"
  and xprop = PValue jsval | PAttrs props | PChildren "xnode list"

definition to_lower :: "char \<Rightarrow> char" where
  \<comment> \<open>\<^verbatim>\<open>toLowerCase\<close> on ASCII; other characters are left as they are\<close>
  "to_lower c = (let n = (of_char c :: nat) in if 65 \<le> n \<and> n \<le> 90 then char_of (n + 32) else c)"

definition to_upper :: "char \<Rightarrow> char" where
  \<comment> \<open>\<^verbatim>\<open>toUpperCase\<close> on ASCII; other characters are left as they are\<close>
  "to_upper c = (let n = (of_char c :: nat) in if 97 \<le> n \<and> n \<le> 122 then char_of (n - 32) else c)"

fun split_on :: "char \<Rightarrow> string \<Rightarrow> string \<Rightarrow> string list" where
  \<comment> \<open>\<^verbatim>\<open>str.split(sep)\<close> for a separator of one character\<close>
  "split_on sep acc [] = [rev acc]"
| "split_on sep acc (c # cs) =
     (if c = sep then rev acc # split_on sep [] cs else split_on sep (c # acc) cs)"

fun capitalize :: "string \<Rightarrow> string" where
  \<comment> \<open>\<^verbatim>\<open>b.charAt(0).toUpperCase() + b.slice(1)\<close>\<close>
  "capitalize [] = []"
| "capitalize (c # cs) = to_upper c # cs"

definition keyConvert :: "string \<Rightarrow> string" where
  "keyConvert str =
     (case split_on CHR ''-'' [] str of
        [] \<Rightarrow> []
      | a # bs \<Rightarrow> fold (\<lambda>b acc. acc @ capitalize b) bs a)"

fun show_nat :: "nat \<Rightarrow> string" where
  \<comment> \<open>an array index as a property name\<close>
  "show_nat n =
     (if n < 10 then [char_of (48 + n)] else show_nat (n div 10) @ [char_of (48 + n mod 10)])"

declare show_nat.simps [simp del]

fun own_props :: "jsval \<Rightarrow> props" where
  \<comment> \<open>the properties \<^verbatim>\<open>{ ...v }\<close> copies: those of an object, the characters of a string by
      index, none of any other value\<close>
  "own_props (JObj a ps) = ps"
| "own_props (JStr s) = map (\<lambda>i. (show_nat i, JStr [s ! i])) [0..<length s]"
| "own_props v = []"

text \<open>
  \<^verbatim>\<open>JSON5.parse\<close> is a library function: it is a parameter, \<open>None\<close> where it throws.
  \<open>set_attributes\<close> is the \<^verbatim>\<open>forEach\<close> over the attribute names, on the pair of
  \<^verbatim>\<open>attrs\<close> and \<^verbatim>\<open>rst\<close>; an exception that leaves the \<^verbatim>\<open>catch\<close> block ends the loop
  and the call.
\<close>

fun set_attributes ::
  "(string \<Rightarrow> jsval option) \<Rightarrow> (string \<times> string) list \<Rightarrow> props \<times> (string \<times> xprop) list
     \<Rightarrow> js_error + props \<times> (string \<times> xprop) list"
where
  "set_attributes json5 [] st = Inr st"
| "set_attributes json5 ((k, val) # rest) (attrs0, rst) =
     (let key = keyConvert k in
      if key = ''style'' \<or> key = ''attrs'' then
        (case json5 val of
           Some style \<Rightarrow> set_attributes json5 rest (spread attrs0 (own_props style), rst)
         | None \<Rightarrow>
             if key = ''style'' then Inl (SyntaxError val)
             else set_attributes json5 rest (attrs0, AList.update key (PValue (JStr val)) rst))
      else
        (case json5 val of
           Some v \<Rightarrow> set_attributes json5 rest (attrs0, AList.update key (PValue v) rst)
         | None \<Rightarrow> set_attributes json5 rest (attrs0, AList.update key (PValue (JStr val)) rst)))"

fun parseXML :: "(string \<Rightarrow> jsval option) \<Rightarrow> element \<Rightarrow> js_error + xnode"
  and parse_children :: "(string \<Rightarrow> jsval option) \<Rightarrow> element list \<Rightarrow> js_error + xnode list"
where
  "parseXML json5 (Element tag keys text kids) =
     (case parse_children json5 kids of
        Inl e \<Rightarrow> Inl e
      | Inr children1 \<Rightarrow>
          (let tagName = (if tag \<noteq> [] then map to_lower tag else ''group'');
               attrs0 = (if tagName = ''text'' then [(''text'', JStr text)] else []);
               rst0 = [(''type'', PValue (JStr tagName))]
           in case set_attributes json5 keys (attrs0, rst0) of
                Inl e \<Rightarrow> Inl e
              | Inr (attrs1, rst1) \<Rightarrow>
                  (let rst2 = AList.update ''attrs'' (PAttrs attrs1) rst1
                   in Inr (XNode (if children1 \<noteq> []
                                  then AList.update ''children'' (PChildren children1) rst2
                                  else rst2)))))"
| "parse_children json5 [] = Inr []"
| "parse_children json5 (e # es) =
     (case parseXML json5 e of
        Inl err \<Rightarrow> Inl err
      | Inr n \<Rightarrow> (case parse_children json5 es of Inl err \<Rightarrow> Inl err | Inr ns \<Rightarrow> Inr (n # ns)))"

section \<open>Sample data for the examples\<close>

fun read_digits :: "string \<Rightarrow> nat \<Rightarrow> nat option" where
  "read_digits [] acc = Some acc"
| "read_digits (c # cs) acc =
     (let n = (of_char c :: nat)
      in if 48 \<le> n \<and> n \<le> 57 then read_digits cs (10 * acc + (n - 48)) else None)"

definition sample_runtime :: js_runtime where
  \<comment> \<open>agrees with JavaScript on the empty string and on strings of decimal digits, which
      read as their number, on strings with any character that no numeric literal has, which
      read as \<^verbatim>\<open>NaN\<close>, on printing the natural numbers below \<open>10^21\<close>, and on sums and
      products that are integers of magnitude at most \<open>2^53\<close>, which are exact; the
      examples convert and calculate nothing else\<close>
  "sample_runtime =
     \<lparr>string_to_number = (\<lambda>s. case read_digits s 0 of None \<Rightarrow> NotANumber
                                | Some n \<Rightarrow> Finite (of_nat n)),
      number_to_string = (\<lambda>r. show_nat (nat \<lfloor>r\<rfloor>)),
      to_double = Some\<rparr>"


definition sample_json5 :: "string \<Rightarrow> jsval option" where
  \<comment> \<open>\<^verbatim>\<open>JSON5.parse\<close> on the strings the examples parse: an object literal, a number,
      and an unclosed brace, which is a syntax error\<close>
  "sample_json5 s =
     (if s = ''{r: 5}'' then Some (JObj 1 [(''r'', JNum 5)])
      else if s = ''12'' then Some (JNum 12)
      else None)"

definition origin :: offset where
  \<comment> \<open>the default \<^verbatim>\<open>lastOffset = { x: 0, y: 0 }\<close>\<close>
  "origin = \<lparr>off_x = JNum 0, off_y = JNum 0\<rparr>"

definition empty_container :: container where
  "empty_container = \<lparr>shapes = [], calls = []\<rparr>"

section \<open>Predicates used in the statements\<close>

fun is_number :: "jsval \<Rightarrow> bool" where
  \<comment> \<open>\<^verbatim>\<open>typeof v === 'number'\<close>\<close>
  "is_number (JNum r) = True"
| "is_number (JInf s) = True"
| "is_number JNaN = True"
| "is_number v = False"

fun nonneg_num :: "jsval \<Rightarrow> bool" where
  \<comment> \<open>a number that is at least zero: a finite one, or \<^verbatim>\<open>Infinity\<close>\<close>
  "nonneg_num (JNum r) = (0 \<le> r)"
| "nonneg_num (JInf s) = s"
| "nonneg_num v = False"

definition num_or_falsy :: "jsval \<Rightarrow> bool" where
  "num_or_falsy v = (is_number v \<or> \<not> truthy v)"

definition default_case :: "string \<Rightarrow> bool" where
  \<comment> \<open>the types that reach the \<^verbatim>\<open>default\<close> branch of the switch in \<^verbatim>\<open>getBBox\<close>\<close>
  "default_case t = (t \<noteq> ''maker'' \<and> t \<noteq> ''circle'' \<and> t \<noteq> ''ellipse'' \<and> t \<noteq> ''text'')"

definition numeric_attrs :: "string \<Rightarrow> props \<Rightarrow> bool" where
  \<comment> \<open>the attributes that \<^verbatim>\<open>getBBox\<close> copies or adds without a numeric conversion are
      numbers where they are truthy\<close>
  "numeric_attrs t a =
     (num_or_falsy (get a ''marginTop'') \<and> num_or_falsy (get a ''marginLeft'')
      \<and> (\<not> default_case t
          \<or> (num_or_falsy (get a ''width'') \<and> num_or_falsy (get a ''height''))))"

fun numeric_geometry :: "node \<Rightarrow> bool" where
  "numeric_geometry (Node t a cs b) =
     (numeric_attrs t a
      \<and> (case cs of None \<Rightarrow> True | Some l \<Rightarrow> list_all numeric_geometry l))"

definition num_offset :: "offset \<Rightarrow> bool" where
  "num_offset offs = (is_number (off_x offs) \<and> is_number (off_y offs))"

definition num_box :: "bbox \<Rightarrow> bool" where
  "num_box b =
     (is_number (box_x b) \<and> is_number (box_y b) \<and> nonneg_num (box_width b) \<and> nonneg_num (box_height b))"

definition box_ok :: "node \<Rightarrow> bool" where
  \<comment> \<open>the node is resolved, to a width and a height that are non-negative numbers\<close>
  "box_ok n = (case bbox n of None \<Rightarrow> False | Some b \<Rightarrow> num_box b)"

fun every_node :: "(node \<Rightarrow> bool) \<Rightarrow> node \<Rightarrow> bool" where
  "every_node P (Node t a cs b) =
     (P (Node t a cs b)
      \<and> (case cs of None \<Rightarrow> True | Some l \<Rightarrow> list_all (every_node P) l))"

definition shape_height :: "js_runtime \<Rightarrow> node \<Rightarrow> jsval" where
  \<comment> \<open>\<^verbatim>\<open>shapeHeight\<close> after the switch of \<^verbatim>\<open>getBBox\<close>\<close>
  "shape_height rt n =
     fst (switch_type rt n \<lparr>box_x = JNum 0, box_y = JNum 0, box_width = JNum 0, box_height = JNum 0\<rparr>)"

definition shape_width :: "js_runtime \<Rightarrow> node \<Rightarrow> jsval" where
  \<comment> \<open>\<^verbatim>\<open>shapeWidth\<close> after the switch of \<^verbatim>\<open>getBBox\<close>\<close>
  "shape_width rt n =
     fst (snd (switch_type rt n
       \<lparr>box_x = JNum 0, box_y = JNum 0, box_width = JNum 0, box_height = JNum 0\<rparr>))"


definition covers_width :: "js_runtime \<Rightarrow> bbox \<Rightarrow> node \<Rightarrow> bool" where
  \<comment> \<open>\<^verbatim>\<open>b.width >= child.bbox.x + child.bbox.width\<close>, unless that sum is \<^verbatim>\<open>NaN\<close>\<close>
  "covers_width rt b c =
     (case bbox c of
        None \<Rightarrow> False
      | Some cb \<Rightarrow>
          (if js_add rt (box_x cb) (box_width cb) = JNaN then True
           else js_ge rt (box_width b) (js_add rt (box_x cb) (box_width cb))))"

definition covers_height :: "js_runtime \<Rightarrow> bbox \<Rightarrow> node \<Rightarrow> bool" where
  \<comment> \<open>\<^verbatim>\<open>b.height >= child.bbox.y + child.bbox.height\<close>, unless that sum is \<^verbatim>\<open>NaN\<close>\<close>
  "covers_height rt b c =
     (case bbox c of
        None \<Rightarrow> False
      | Some cb \<Rightarrow>
          (if js_add rt (box_y cb) (box_height cb) = JNaN then True
           else js_ge rt (box_height b) (js_add rt (box_y cb) (box_height cb))))"



fun as_number :: "jsval \<Rightarrow> number" where
  "as_number (JNum r) = Finite r"
| "as_number (JInf s) = Infinite s"
| "as_number v = NotANumber"

definition num_le :: "jsval \<Rightarrow> jsval \<Rightarrow> bool" where
  \<comment> \<open>both are numbers and the first is at most the second\<close>
  "num_le v w = number_le (as_number v) (as_number w)"

definition resolved_children :: "js_runtime \<Rightarrow> node \<Rightarrow> offset \<Rightarrow> node list option \<times> bbox" where
  \<comment> \<open>the children and \<^verbatim>\<open>defaultBbox\<close> as \<^verbatim>\<open>generateTarget\<close> has them when it calls
      \<^verbatim>\<open>getBBox\<close>\<close>
  "resolved_children rt n lastOffset =
     (let defaultBbox = \<lparr>box_x = off_x lastOffset, box_y = off_y lastOffset,
                         box_width = JNum 0, box_height = JNum 0\<rparr>
      in case children n of
           Some (c # rest) \<Rightarrow>
             (let offset = (if truthy (get (attrs n) ''marginTop'')
                            then lastOffset\<lparr>off_y := js_add rt (off_y lastOffset) (get (attrs n) ''marginTop'')\<rparr>
                            else lastOffset);
                  (kids, offset1, d) =
                    generate_children rt (attrs n) 0 (c # rest) offset defaultBbox
              in (Some kids, d))
         | _ \<Rightarrow> (children n, defaultBbox))"

definition loop_ok :: "js_runtime \<Rightarrow> bbox \<Rightarrow> node list \<times> offset \<times> bbox \<Rightarrow> bool" where
  \<comment> \<open>what the loop over the children keeps, from \<^verbatim>\<open>defaultBbox\<close> \<open>d\<close> at its start\<close>
  "loop_ok rt d res =
     (case res of
        (kids, offs, d1) \<Rightarrow>
          list_all (every_node box_ok) kids \<and> num_offset offs
          \<and> nonneg_num (box_width d1) \<and> nonneg_num (box_height d1)
          \<and> num_le (box_width d) (box_width d1) \<and> num_le (box_height d) (box_height d1)
          \<and> list_all (\<lambda>c. covers_width rt d1 c \<and> covers_height rt d1 c) kids)"

fun same_but_key :: "node \<Rightarrow> node \<Rightarrow> bool"
  and same_but_key_list :: "node list \<Rightarrow> node list \<Rightarrow> bool"
where
  \<comment> \<open>the two trees differ at most in the \<^verbatim>\<open>key\<close> attribute of their nodes\<close>
  "same_but_key (Node t a cs b) m =
     (ntype m = t \<and> bbox m = b
      \<and> filter (\<lambda>p. fst p \<noteq> ''key'') (attrs m) = filter (\<lambda>p. fst p \<noteq> ''key'') a
      \<and> (case cs of
            None \<Rightarrow> children m = None
          | Some l \<Rightarrow> (case children m of None \<Rightarrow> False | Some l1 \<Rightarrow> same_but_key_list l l1)))"
| "same_but_key_list [] ms = (ms = [])"
| "same_but_key_list (n # ns) ms =
     (case ms of [] \<Rightarrow> False | m # ms1 \<Rightarrow> same_but_key n m \<and> same_but_key_list ns ms1)"

definition carried_key :: "node \<Rightarrow> node option \<Rightarrow> jsval" where
  \<comment> \<open>the \<^verbatim>\<open>key\<close> of the current node after the call: the previous node's when that is truthy\<close>
  "carried_key n formerTarget =
     (case formerTarget of
        None \<Rightarrow> get (attrs n) ''key''
      | Some f \<Rightarrow> if truthy (get (attrs f) ''key'') then get (attrs f) ''key''
                  else get (attrs n) ''key'')"

text \<open>
  The effect of \<^verbatim>\<open>compareTwoTarget\<close> on the current tree as C5 below states it,
  written from that statement and not from the code: a current node that is compared
  with a present previous node takes that node's \<^verbatim>\<open>key\<close> when it is truthy, and nothing
  else changes. The children are compared by position when both nodes have a
  \<open>children\<close> field; a current child without a partner is not compared with anything.
\<close>

fun carry_keys :: "node \<Rightarrow> node \<Rightarrow> node"
  and carry_keys_list :: "node list \<Rightarrow> node list \<Rightarrow> node list"
where
  "carry_keys (Node t a cs b) previous =
     Node t
       (if truthy (get (attrs previous) ''key'')
        then put ''key'' (get (attrs previous) ''key'') a else a)
       (case cs of
          None \<Rightarrow> None
        | Some l \<Rightarrow>
            (case children previous of
               None \<Rightarrow> Some l
             | Some m \<Rightarrow> Some (carry_keys_list l m)))
       b"
| "carry_keys_list [] ms = []"
| "carry_keys_list (n # ns) [] = n # ns"
| "carry_keys_list (n # ns) (m # ms) = carry_keys n m # carry_keys_list ns ms"

fun erase_refs :: "jsval \<Rightarrow> jsval" where
  \<comment> \<open>the value without the identities of its objects\<close>
  "erase_refs (JObj a ps) = JObj 0 (map (\<lambda>(k, v). (k, erase_refs v)) ps)"
| "erase_refs v = v"

fun erase_node :: "node \<Rightarrow> node" where
  "erase_node (Node t a cs b) =
     Node t (map (\<lambda>(k, v). (k, erase_refs v)) a)
       (case cs of None \<Rightarrow> None | Some l \<Rightarrow> Some (map erase_node l)) b"

definition deep_equal :: "node \<Rightarrow> node \<Rightarrow> bool" where
  \<comment> \<open>equal up to the identity of the objects among the attribute values\<close>
  "deep_equal n m = (erase_node n = erase_node m)"

fun primitive :: "jsval \<Rightarrow> bool" where
  \<comment> \<open>a primitive value other than \<^verbatim>\<open>NaN\<close>\<close>
  "primitive (JObj a ps) = False"
| "primitive JNaN = False"
| "primitive v = True"

definition primitive_attrs :: "node \<Rightarrow> bool" where
  "primitive_attrs n = list_all (\<lambda>p. primitive (snd p)) (attrs n)"

fun all_same :: "diff \<Rightarrow> bool" where
  \<comment> \<open>\<^verbatim>\<open>action\<close> is \<^verbatim>\<open>'same'\<close> at every node of the diff tree\<close>
  "all_same DAbsent = True"
| "all_same (DSame ds t k) = list_all all_same ds"
| "all_same d = False"

definition no_group_shape :: "container \<Rightarrow> bool" where
  \<comment> \<open>no call recorded so far creates a shape of type \<^verbatim>\<open>group\<close>\<close>
  "no_group_shape c =
     list_all (\<lambda>h. case h of AddShape t a \<Rightarrow> t \<noteq> ''group'' | _ \<Rightarrow> True) (calls c)"

section \<open>Sample trees\<close>

definition circle5 :: node where
  "circle5 = Node ''circle'' [(''r'', JNum 5)] None None"


definition mixed_tree :: node where
  \<comment> \<open>a text without a character width, a negative radius, a negative width\<close>
  "mixed_tree =
     Node ''group'' []
       (Some [Node ''text'' [(''text'', JStr ''hi'')] None None,
              Node ''circle'' [(''r'', JNum (- 5))] None None,
              Node ''rect'' [(''width'', JNum (- 3)), (''height'', JNum 4)] None None]) None"


definition stack_of_one :: node where
  "stack_of_one =
     generateTarget sample_runtime (Node ''rect'' [] (Some [circle5]) None) origin"

definition stack_with_group :: node where
  "stack_with_group =
     generateTarget sample_runtime
       (Node ''rect'' [] (Some [circle5, Node ''group'' [] None None]) None) origin"

definition stack_with_nested_group :: node where
  "stack_with_nested_group =
     generateTarget sample_runtime
       (Node ''rect'' []
          (Some [circle5, Node ''rect'' [] (Some [Node ''group'' [] None None]) None]) None)
       origin"

definition drawn :: "node \<Rightarrow> container" where
  \<comment> \<open>the container after the initial draw of a tree, with an empty record of calls\<close>
  "drawn n = (renderTarget n empty_container)\<lparr>calls := []\<rparr>"

definition styled :: "nat \<Rightarrow> node" where
  \<comment> \<open>a node with an object-valued attribute; the argument is the identity of the object\<close>
  "styled i = Node ''rect'' [(''style'', JObj i [(''fill'', JStr ''red'')])] None None"

definition keyed_now :: node where
  "keyed_now =
     Node ''rect'' [(''key'', JStr ''a''), (''fill'', JStr ''red'')]
       (Some [Node ''circle'' [(''key'', JStr ''a-0''), (''r'', JNum 5)] None None,
              Node ''text'' [(''key'', JStr ''a-1'')] None None])
       None"

definition keyed_previous :: node where
  "keyed_previous =
     Node ''rect'' [(''key'', JStr ''b'')]
       (Some [Node ''circle'' [(''key'', JStr ''b-0'')] None None]) None"

definition plain_tree :: node where
  "plain_tree =
     Node ''rect'' [(''width'', JNum 10), (''fill'', JStr ''red'')]
       (Some [Node ''circle'' [(''r'', JNum 5), (''key'', JStr ''root-0'')] None None]) None"

section \<open>The operators on numbers\<close>

text \<open>
  On two numbers \<^verbatim>\<open>+\<close>, \<^verbatim>\<open>>\<close> and \<^verbatim>\<open>>=\<close> are the arithmetic and the order of the
  doubles; the guard \<^verbatim>\<open>v >= 0\<close> lets a product or a number through only when it is a
  non-negative number, which \<^verbatim>\<open>Infinity\<close> is and \<^verbatim>\<open>NaN\<close> is not.
\<close>

lemma as_number_value [simp]: "as_number (number_value x) = x"
  by (cases x) auto

lemma is_number_value [simp]: "is_number (number_value x)"
  by (cases x) auto

lemma nonneg_num_iff: "nonneg_num v \<longleftrightarrow> number_le (Finite 0) (as_number v)"
  by (cases v) auto

lemma nonneg_is_number: "nonneg_num v \<Longrightarrow> is_number v"
  by (cases v) auto

lemma js_add_number:
  "is_number u \<Longrightarrow> is_number v
     \<Longrightarrow> js_add rt u v = number_value (number_add rt (as_number u) (as_number v))"
  by (cases u; cases v) (simp_all add: js_add_def)

lemma is_number_add: "is_number u \<Longrightarrow> is_number v \<Longrightarrow> is_number (js_add rt u v)"
  by (simp add: js_add_number)

lemma js_gt_number:
  "is_number u \<Longrightarrow> is_number v \<Longrightarrow> js_gt rt u v = number_less (as_number v) (as_number u)"
  by (cases u; cases v) (simp_all add: js_gt_def)

lemma js_ge_number:
  "is_number v \<Longrightarrow> js_ge rt v s = number_le (to_number rt (to_primitive s)) (as_number v)"
  by (cases v; cases s) (simp_all add: js_ge_def)

lemma number_add_commute: "number_add rt x y = number_add rt y x"
  by (cases x; cases y) (auto simp: add.commute)

lemma number_le_trans: "number_le x y \<Longrightarrow> number_le y z \<Longrightarrow> number_le x z"
  by (cases x; cases y; cases z) auto

lemma number_less_le: "number_less x y \<Longrightarrow> number_le x y"
  by (cases x; cases y) auto

lemma number_le_total:
  "x \<noteq> NotANumber \<Longrightarrow> y \<noteq> NotANumber \<Longrightarrow> \<not> number_less x y \<Longrightarrow> number_le y x"
  by (cases x; cases y) auto

lemma number_le_refl: "x \<noteq> NotANumber \<Longrightarrow> number_le x x"
  by (cases x) auto

lemma number_le_defined: "number_le x y \<Longrightarrow> x \<noteq> NotANumber \<and> y \<noteq> NotANumber"
  by (cases x; cases y) auto

lemma is_number_mul [simp]: "is_number (js_mul rt u v)"
  by (simp add: js_mul_def)

lemma guard_nonneg:
  "v = JUndefined \<or> is_number v \<Longrightarrow> js_ge rt v (JNum 0) \<Longrightarrow> nonneg_num v"
  by (cases v) (auto simp: js_ge_def)

lemma guard_mul_nonneg: "js_ge rt (js_mul rt u v) (JNum 0) \<Longrightarrow> nonneg_num (js_mul rt u v)"
  by (rule guard_nonneg) simp_all

lemma guard_truthy_nonneg:
  "num_or_falsy v \<Longrightarrow> truthy v \<Longrightarrow> js_ge rt v (JNum 0) \<Longrightarrow> nonneg_num v"
  by (rule guard_nonneg) (auto simp: num_or_falsy_def)

lemma js_or_number: "is_number v \<Longrightarrow> is_number (js_or v (JNum 0))"
  by (simp add: js_or_def)

lemma js_or_nonneg: "nonneg_num v \<Longrightarrow> js_or v (JNum 0) = v"
  by (cases v) (auto simp: js_or_def)

lemma num_le_refl: "nonneg_num v \<Longrightarrow> num_le v v"
  by (cases v) (auto simp: num_le_def)

lemma num_le_is_number: "num_le v w \<Longrightarrow> is_number v \<and> is_number w"
  by (cases v; cases w) (auto simp: num_le_def)

lemma js_ge_undefined [simp]: "js_ge rt JUndefined (JNum q) = False"
  by (simp add: js_ge_def)

lemma to_number_value [simp]: "to_number rt (to_primitive (number_value x)) = x"
  by (cases x) auto

lemma grow_axis:
  assumes "is_number x" "nonneg_num w" "nonneg_num dw"
  shows "nonneg_num (if js_gt rt (js_add rt w x) dw then js_add rt w x else dw)"
    and "num_le dw (if js_gt rt (js_add rt w x) dw then js_add rt w x else dw)"
    and "js_add rt x w = JNaN
         \<or> js_ge rt (if js_gt rt (js_add rt w x) dw then js_add rt w x else dw) (js_add rt x w)"
proof -
  define d1 where "d1 = (if js_gt rt (js_add rt w x) dw then js_add rt w x else dw)"
  define S where "S = number_add rt (as_number w) (as_number x)"
  note nw = nonneg_is_number[OF assms(2)] and nd = nonneg_is_number[OF assms(3)]
  have s: "js_add rt w x = number_value S" "js_add rt x w = number_value S"
    using assms(1) nw by (simp_all add: js_add_number S_def number_add_commute)
  have gt: "js_gt rt (number_value S) dw = number_less (as_number dw) S"
    using nd by (simp add: js_gt_number)
  have d0: "number_le (Finite 0) (as_number dw)"
    using assms(3) by (simp add: nonneg_num_iff)
  have "nonneg_num d1 \<and> num_le dw d1 \<and> (js_add rt x w = JNaN \<or> js_ge rt d1 (js_add rt x w))"
  proof (cases "number_less (as_number dw) S")
    case True
    then have le: "number_le (as_number dw) S" by (rule number_less_le)
    have d1: "d1 = number_value S" using True by (simp add: d1_def gt s)
    have "nonneg_num d1"
      using number_le_trans[OF d0 le] by (simp add: d1 nonneg_num_iff)
    moreover have "num_le dw d1" using le by (simp add: d1 num_le_def)
    moreover have "js_add rt x w = JNaN \<or> js_ge rt d1 (js_add rt x w)"
      using number_le_defined[OF le] by (simp add: d1 s js_ge_number number_le_refl)
    ultimately show ?thesis by blast
  next
    case False
    have d1: "d1 = dw" using False by (simp add: d1_def gt s)
    have "nonneg_num d1" using assms(3) by (simp add: d1)
    moreover have "num_le dw d1" using assms(3) by (simp add: d1 num_le_refl)
    moreover have "js_add rt x w = JNaN \<or> js_ge rt d1 (js_add rt x w)"
    proof (cases "S = NotANumber")
      case True
      then show ?thesis by (simp add: s)
    next
      case nan: False
      have "number_le S (as_number dw)"
        using number_le_defined[OF d0] nan False by (simp add: number_le_total)
      then show ?thesis using nd by (simp add: d1 s js_ge_number)
    qed
    ultimately show ?thesis by blast
  qed
  then show "nonneg_num (if js_gt rt (js_add rt w x) dw then js_add rt w x else dw)"
    and "num_le dw (if js_gt rt (js_add rt w x) dw then js_add rt w x else dw)"
    and "js_add rt x w = JNaN
         \<or> js_ge rt (if js_gt rt (js_add rt w x) dw then js_add rt w x else dw) (js_add rt x w)"
    unfolding d1_def by blast+
qed

lemma get_put_other: "k \<noteq> k' \<Longrightarrow> get (put k' v a) k = get a k"
  by (simp add: get_def put_def update_conv')

lemma get_put_same [simp]: "get (put k v a) k = v"
  by (simp add: get_def put_def update_conv')

lemma numeric_attrs_put_key [simp]: "numeric_attrs t (put ''key'' v a) = numeric_attrs t a"
  by (simp add: numeric_attrs_def get_put_other)

section \<open>Layout resolver: what the loop over the children keeps\<close>

lemma switch_type_guards:
  assumes "numeric_attrs t a"
    and "switch_type rt (Node t a cs b) b0 = (sh, sw, b1, n1)"
  shows "js_ge rt sh (JNum 0) \<Longrightarrow> nonneg_num sh"
    and "js_ge rt sw (JNum 0) \<Longrightarrow> nonneg_num sw"
proof -
  have d: "default_case t \<Longrightarrow> num_or_falsy (get a ''width'') \<and> num_or_falsy (get a ''height'')"
    using assms(1) by (auto simp: numeric_attrs_def)
  show "js_ge rt sh (JNum 0) \<Longrightarrow> nonneg_num sh"
    using assms(2) d
    by (auto simp: switch_type_def Let_def default_case_def
        intro: guard_mul_nonneg guard_truthy_nonneg split: if_splits)
  show "js_ge rt sw (JNum 0) \<Longrightarrow> nonneg_num sw"
    using assms(2) d
    by (auto simp: switch_type_def Let_def default_case_def
        intro: guard_mul_nonneg guard_truthy_nonneg split: if_splits)
qed

lemma switch_type_frame:
  assumes "switch_type rt (Node t a cs b) b0 = (sh, sw, b1, n1)"
  shows "ntype n1 = t" "children n1 = cs" "bbox n1 = b"
    and "box_x b1 = box_x b0" "box_width b1 = box_width b0" "box_height b1 = box_height b0"
    and "box_y b1 = box_y b0 \<or> box_y b1 = js_add rt (box_y b0) (JNum 16)"
  using assms by (auto simp: switch_type_def Let_def split: if_splits)


lemma getBBox_fields:
  assumes sw: "switch_type rt (Node t a cs b)
      \<lparr>box_x = js_or (off_x offs) (JNum 0), box_y = js_or (off_y offs) (JNum 0),
       box_width = js_or (box_width cb) (JNum 0), box_height = js_or (box_height cb) (JNum 0)\<rparr>
      = (sh, sw, b1, n1)"
  shows "snd (getBBox rt (Node t a cs b) offs cb) = n1"
    and "box_height (fst (getBBox rt (Node t a cs b) offs cb)) =
           (if js_ge rt sh (JNum 0) then sh else js_or (box_height cb) (JNum 0))"
    and "box_width (fst (getBBox rt (Node t a cs b) offs cb)) =
           (if js_ge rt sw (JNum 0) then sw else js_or (box_width cb) (JNum 0))"
    and "box_x (fst (getBBox rt (Node t a cs b) offs cb)) =
           (if truthy (get a ''marginLeft'')
            then js_add rt (js_or (off_x offs) (JNum 0)) (get a ''marginLeft'')
            else js_or (off_x offs) (JNum 0))"
    and "box_y (fst (getBBox rt (Node t a cs b) offs cb)) =
           (if truthy (get a ''marginTop'') then js_add rt (box_y b1) (get a ''marginTop'')
            else box_y b1)"
  using switch_type_frame[OF sw]
  by (simp_all add: getBBox_def Let_def sw)

lemma getBBox_num_box:
  assumes "numeric_attrs t a" "num_offset offs"
    and "nonneg_num (box_width cb)" "nonneg_num (box_height cb)"
  shows "num_box (fst (getBBox rt (Node t a cs b) offs cb))"
proof -
  have o: "is_number (off_x offs)" "is_number (off_y offs)"
    using assms(2) by (auto simp: num_offset_def)
  note c = js_or_nonneg[OF assms(3)] js_or_nonneg[OF assms(4)]
  obtain sh sw b1 n1 where sw: "switch_type rt (Node t a cs b)
      \<lparr>box_x = js_or (off_x offs) (JNum 0), box_y = js_or (off_y offs) (JNum 0),
       box_width = js_or (box_width cb) (JNum 0), box_height = js_or (box_height cb) (JNum 0)\<rparr>
      = (sh, sw, b1, n1)"
    by (rule prod_cases4)
  note f = getBBox_fields[OF sw] and g = switch_type_guards[OF assms(1) sw]
    and fr = switch_type_frame[OF sw]
  have m: "num_or_falsy (get a ''marginTop'')" "num_or_falsy (get a ''marginLeft'')"
    using assms(1) by (auto simp: numeric_attrs_def)
  have "nonneg_num (box_width (fst (getBBox rt (Node t a cs b) offs cb)))"
    using g(2) assms(3) by (simp add: f(3) c)
  moreover have "nonneg_num (box_height (fst (getBBox rt (Node t a cs b) offs cb)))"
    using g(1) assms(4) by (simp add: f(2) c)
  moreover have "is_number (box_x (fst (getBBox rt (Node t a cs b) offs cb)))"
    using m(2) o(1) by (auto simp: f(4) num_or_falsy_def intro: is_number_add js_or_number)
  moreover have "is_number (box_y (fst (getBBox rt (Node t a cs b) offs cb)))"
    using m(1) fr(7) o(2)
    by (auto simp: f(5) num_or_falsy_def intro!: is_number_add js_or_number)
  ultimately show ?thesis by (simp add: num_box_def)
qed


lemma generateTarget_eq:
  "generateTarget rt (Node t a cs b) offs =
     (let (cs1, d1) = resolved_children rt (Node t a cs b) offs;
          (bb, target1) = getBBox rt (Node t a cs1 b) offs d1
      in Node (ntype target1) (spread (attrs target1) (bbox_props bb)) (children target1) (Some bb))"
  by (simp add: resolved_children_def Let_def split: option.splits list.splits prod.splits)

lemma getBBox_frame:
  "ntype (snd (getBBox rt (Node t a cs b) offs cb)) = t"
  "children (snd (getBBox rt (Node t a cs b) offs cb)) = cs"
proof -
  obtain sh sw b1 n1 where sw: "switch_type rt (Node t a cs b)
      \<lparr>box_x = js_or (off_x offs) (JNum 0), box_y = js_or (off_y offs) (JNum 0),
       box_width = js_or (box_width cb) (JNum 0), box_height = js_or (box_height cb) (JNum 0)\<rparr>
      = (sh, sw, b1, n1)"
    by (rule prod_cases4)
  show "ntype (snd (getBBox rt (Node t a cs b) offs cb)) = t"
    "children (snd (getBBox rt (Node t a cs b) offs cb)) = cs"
    using switch_type_frame(1,2)[OF sw] getBBox_fields(1)[OF sw] by simp_all
qed

lemma generateTarget_parts:
  assumes "resolved_children rt (Node t a cs b) offs = (cs1, d1)"
  shows "ntype (generateTarget rt (Node t a cs b) offs) = t"
    and "children (generateTarget rt (Node t a cs b) offs) = cs1"
    and "bbox (generateTarget rt (Node t a cs b) offs) = Some (fst (getBBox rt (Node t a cs1 b) offs d1))"
  using getBBox_frame[of rt t a cs1 b offs d1]
  by (simp_all add: generateTarget_eq assms Let_def split_beta del: generateTarget.simps)

lemma every_node_iff:
  "every_node P n = (P n \<and> (case children n of None \<Rightarrow> True | Some l \<Rightarrow> list_all (every_node P) l))"
  by (cases n) simp

lemma grow_box_fields:
  "box_width (grow_box rt bb d) =
     (if js_gt rt (js_add rt (box_width bb) (box_x bb)) (box_width d)
      then js_add rt (box_width bb) (box_x bb) else box_width d)"
  "box_height (grow_box rt bb d) =
     (if js_gt rt (js_add rt (box_height bb) (box_y bb)) (box_height d)
      then js_add rt (box_height bb) (box_y bb) else box_height d)"
  by (simp_all add: grow_box_def Let_def)

lemma grow_box_num:
  assumes "num_box bb" "nonneg_num (box_width d)" "nonneg_num (box_height d)"
  shows "nonneg_num (box_width (grow_box rt bb d))"
    and "nonneg_num (box_height (grow_box rt bb d))"
    and "num_le (box_width d) (box_width (grow_box rt bb d))"
    and "num_le (box_height d) (box_height (grow_box rt bb d))"
    and "js_add rt (box_x bb) (box_width bb) = JNaN
         \<or> js_ge rt (box_width (grow_box rt bb d)) (js_add rt (box_x bb) (box_width bb))"
    and "js_add rt (box_y bb) (box_height bb) = JNaN
         \<or> js_ge rt (box_height (grow_box rt bb d)) (js_add rt (box_y bb) (box_height bb))"
proof -
  have b: "is_number (box_x bb)" "is_number (box_y bb)" "nonneg_num (box_width bb)"
    "nonneg_num (box_height bb)"
    using assms(1) by (simp_all add: num_box_def)
  show "nonneg_num (box_width (grow_box rt bb d))"
    "num_le (box_width d) (box_width (grow_box rt bb d))"
    "js_add rt (box_x bb) (box_width bb) = JNaN
         \<or> js_ge rt (box_width (grow_box rt bb d)) (js_add rt (box_x bb) (box_width bb))"
    unfolding grow_box_fields by (rule grow_axis[OF b(1) b(3) assms(2)])+
  show "nonneg_num (box_height (grow_box rt bb d))"
    "num_le (box_height d) (box_height (grow_box rt bb d))"
    "js_add rt (box_y bb) (box_height bb) = JNaN
         \<or> js_ge rt (box_height (grow_box rt bb d)) (js_add rt (box_y bb) (box_height bb))"
    unfolding grow_box_fields by (rule grow_axis[OF b(2) b(4) assms(3)])+
qed

lemma num_le_trans: "num_le u v \<Longrightarrow> num_le v w \<Longrightarrow> num_le u w"
  unfolding num_le_def by (rule number_le_trans)

lemma js_ge_mono:
  assumes "js_ge rt v s" "nonneg_num v" "num_le v v1"
  shows "js_ge rt v1 s"
proof -
  have "number_le (to_number rt (to_primitive s)) (as_number v)"
    using assms(1,2) by (simp add: js_ge_number nonneg_is_number)
  then have "number_le (to_number rt (to_primitive s)) (as_number v1)"
    using assms(3) unfolding num_le_def by (rule number_le_trans)
  then show ?thesis
    using num_le_is_number[OF assms(3)] by (simp add: js_ge_number)
qed

lemma covers_width_mono:
  "covers_width rt d c \<Longrightarrow> nonneg_num (box_width d) \<Longrightarrow> num_le (box_width d) (box_width d1)
     \<Longrightarrow> covers_width rt d1 c"
  by (auto simp: covers_width_def split: option.splits if_splits intro: js_ge_mono)

lemma covers_height_mono:
  "covers_height rt d c \<Longrightarrow> nonneg_num (box_height d) \<Longrightarrow> num_le (box_height d) (box_height d1)
     \<Longrightarrow> covers_height rt d1 c"
  by (auto simp: covers_height_def split: option.splits if_splits intro: js_ge_mono)

lemma resolved_children_Cons:
  "resolved_children rt (Node t a (Some (c # rest)) b) lastOffset =
     (case generate_children rt a 0 (c # rest)
             (if truthy (get a ''marginTop'')
              then lastOffset\<lparr>off_y := js_add rt (off_y lastOffset) (get a ''marginTop'')\<rparr>
              else lastOffset)
             \<lparr>box_x = off_x lastOffset, box_y = off_y lastOffset,
              box_width = JNum 0, box_height = JNum 0\<rparr> of
        (kids, offset1, d) \<Rightarrow> (Some kids, d))"
  by (simp add: resolved_children_def Let_def cong: if_cong)

lemma layout_invariant:
  "numeric_geometry n \<Longrightarrow> num_offset offs \<Longrightarrow> every_node box_ok (generateTarget rt n offs)"
  "list_all numeric_geometry cs \<Longrightarrow> num_offset offs \<Longrightarrow> nonneg_num (box_width d)
     \<Longrightarrow> nonneg_num (box_height d) \<Longrightarrow> loop_ok rt d (generate_children rt a i cs offs d)"
proof (induction rt n offs and rt a i cs offs d rule: generateTarget_generate_children.induct)
  case (1 rt t a cs b lastOffset)
  define d0 where "d0 = \<lparr>box_x = off_x lastOffset, box_y = off_y lastOffset,
                         box_width = JNum 0, box_height = JNum 0\<rparr>"
  define offset where "offset = (if truthy (get a ''marginTop'')
            then lastOffset\<lparr>off_y := js_add rt (off_y lastOffset) (get a ''marginTop'')\<rparr>
            else lastOffset)"
  have na: "numeric_attrs t a" using "1.prems"(1) by simp
  have no: "num_offset offset"
    using na "1.prems"(2)
    by (auto simp: offset_def numeric_attrs_def num_offset_def num_or_falsy_def
        intro: is_number_add)
  obtain cs1 d1 where rc: "resolved_children rt (Node t a cs b) lastOffset = (cs1, d1)"
    by (rule prod.exhaust)
  have kids: "nonneg_num (box_width d1) \<and> nonneg_num (box_height d1)
      \<and> (case cs1 of None \<Rightarrow> True | Some l \<Rightarrow> list_all (every_node box_ok) l)"
  proof (cases cs)
    case None
    then show ?thesis using rc by (auto simp: resolved_children_def)
  next
    case (Some l)
    show ?thesis
    proof (cases l)
      case Nil
      then show ?thesis using rc Some by (auto simp: resolved_children_def)
    next
      case (Cons c rest)
      have "list_all numeric_geometry (c # rest)"
        using "1.prems"(1) Some Cons by simp
      then have "loop_ok rt d0 (generate_children rt a 0 (c # rest) offset d0)"
        using "1.IH"[OF d0_def Some Cons offset_def] no by (simp add: d0_def)
      then show ?thesis
        using rc unfolding Some Cons resolved_children_Cons
        by (auto simp: loop_ok_def d0_def offset_def split: prod.splits)
    qed
  qed
  have "num_box (fst (getBBox rt (Node t a cs1 b) lastOffset d1))"
    using getBBox_num_box[OF na "1.prems"(2)] kids by blast
  then show ?case
    using kids generateTarget_parts[OF rc]
    by (subst every_node_iff) (simp add: box_ok_def del: generateTarget.simps)
next
  case (2 rt a index offset defaultBbox)
  then show ?case by (simp add: loop_ok_def num_le_refl)
next
  case (3 rt a index t ca ccs cb rest offset defaultBbox)
  define node where "node = generateTarget rt (Node t (put ''key'' (child_key rt a index) ca) ccs cb) offset"
  have "numeric_geometry (Node t (put ''key'' (child_key rt a index) ca) ccs cb)"
    using "3.prems"(1) by simp
  then have en: "every_node box_ok node"
    using "3.IH"(1) "3.prems"(2) by (simp add: node_def del: generateTarget.simps)
  then obtain bb where bb: "bbox node = Some bb" "num_box bb"
    by (auto simp: every_node_iff[of box_ok node] box_ok_def split: option.splits)
  define offset1 where "offset1 = offset\<lparr>off_y := js_add rt (off_y offset) (box_height bb)\<rparr>"
  define d1 where "d1 = grow_box rt bb defaultBbox"
  note g = grow_box_num[OF bb(2) "3.prems"(3,4), of rt, folded d1_def]
  have no: "num_offset offset1"
    using "3.prems"(2) bb(2)
    by (auto simp: offset1_def num_offset_def num_box_def intro: is_number_add nonneg_is_number)
  have xa: "(offset1, d1) = (case bbox node of None \<Rightarrow> (offset, defaultBbox)
            | Some bb \<Rightarrow> (offset\<lparr>off_y := js_add rt (off_y offset) (box_height bb)\<rparr>,
                 grow_box rt bb defaultBbox))"
    by (simp add: bb offset1_def d1_def)
  have rest: "loop_ok rt d1 (generate_children rt a (Suc index) rest offset1 d1)"
    using "3.IH"(2)[OF node_def refl xa] "3.prems"(1) no g(1,2) by simp
  obtain rest1 offset2 d2 where r: "generate_children rt a (Suc index) rest offset1 d1 = (rest1, offset2, d2)"
    by (rule prod_cases3)
  have eq: "generate_children rt a index (Node t ca ccs cb # rest) offset defaultBbox
      = (node # rest1, offset2, d2)"
    using r by (simp add: node_def[symmetric] bb offset1_def[symmetric] d1_def[symmetric]
        del: generateTarget.simps)
  have cw: "covers_width rt d1 node" "covers_height rt d1 node"
    using g(5,6) by (auto simp: covers_width_def covers_height_def bb)
  have l: "list_all (every_node box_ok) rest1" "num_offset offset2"
    "nonneg_num (box_width d2)" "nonneg_num (box_height d2)"
    "num_le (box_width d1) (box_width d2)" "num_le (box_height d1) (box_height d2)"
    "list_all (\<lambda>c. covers_width rt d2 c \<and> covers_height rt d2 c) rest1"
    using rest by (simp_all add: r loop_ok_def)
  have "covers_width rt d2 node" "covers_height rt d2 node"
    using cw covers_width_mono[OF _ g(1) l(5)] covers_height_mono[OF _ g(2) l(6)] by blast+
  moreover have "num_le (box_width defaultBbox) (box_width d2)"
    "num_le (box_height defaultBbox) (box_height d2)"
    using g(3,4) l(5,6) num_le_trans by blast+
  ultimately show ?case
    unfolding eq using en l by (simp add: loop_ok_def)
qed


lemma switch_type_shape:
  "fst (switch_type rt n b0) = shape_height rt n"
  "fst (snd (switch_type rt n b0)) = shape_width rt n"
  by (simp_all add: switch_type_def shape_height_def shape_width_def Let_def)


lemma getBBox_size:
  "box_height (fst (getBBox rt n offs cb)) =
     (if js_ge rt (shape_height rt n) (JNum 0) then shape_height rt n
      else js_or (box_height cb) (JNum 0))"
  "box_width (fst (getBBox rt n offs cb)) =
     (if js_ge rt (shape_width rt n) (JNum 0) then shape_width rt n
      else js_or (box_width cb) (JNum 0))"
proof -
  obtain t a cs b where n: "n = Node t a cs b" by (cases n)
  obtain sh sw b1 n1 where sw: "switch_type rt (Node t a cs b)
      \<lparr>box_x = js_or (off_x offs) (JNum 0), box_y = js_or (off_y offs) (JNum 0),
       box_width = js_or (box_width cb) (JNum 0), box_height = js_or (box_height cb) (JNum 0)\<rparr>
      = (sh, sw, b1, n1)"
    by (rule prod_cases4)
  have "fst (sh, sw, b1, n1) = shape_height rt n" "fst (snd (sh, sw, b1, n1)) = shape_width rt n"
    unfolding sw[symmetric] n by (rule switch_type_shape)+
  then have "sh = shape_height rt n" "sw = shape_width rt n" by simp_all
  then show "box_height (fst (getBBox rt n offs cb)) =
     (if js_ge rt (shape_height rt n) (JNum 0) then shape_height rt n
      else js_or (box_height cb) (JNum 0))"
    "box_width (fst (getBBox rt n offs cb)) =
     (if js_ge rt (shape_width rt n) (JNum 0) then shape_width rt n
      else js_or (box_width cb) (JNum 0))"
    using getBBox_fields(2,3)[OF sw] by (simp_all add: n)
qed




section \<open>Layout resolver: the claims\<close>

text \<open>
  The first case of the switch applies the radius: for a node of type \<^verbatim>\<open>circle\<close> or
  \<^verbatim>\<open>maker\<close> whose \<^verbatim>\<open>attrs.r\<close> is truthy and for which \<^verbatim>\<open>2 * r >= 0\<close> holds, the
  width and the height of the resolved bbox are \<^verbatim>\<open>2 * r\<close>, at any offset and whatever
  the children are.
\<close>

lemma circle_box_is_twice_radius:
  assumes "ntype n = ''circle'' \<or> ntype n = ''maker''" "truthy (get (attrs n) ''r'')"
    and "js_ge rt (js_mul rt (JNum 2) (get (attrs n) ''r'')) (JNum 0)"
  shows "\<exists>b. bbox (generateTarget rt n offs) = Some b
           \<and> box_width b = js_mul rt (JNum 2) (get (attrs n) ''r'')
           \<and> box_height b = js_mul rt (JNum 2) (get (attrs n) ''r'')"
proof -
  obtain t a cs b0 where n: "n = Node t a cs b0" by (cases n)
  obtain cs1 d1 where rc: "resolved_children rt (Node t a cs b0) offs = (cs1, d1)"
    by (rule prod.exhaust)
  have s: "shape_width rt (Node t a cs1 b0) = js_mul rt (JNum 2) (get a ''r'')"
    "shape_height rt (Node t a cs1 b0) = js_mul rt (JNum 2) (get a ''r'')"
    using assms(1,2) by (auto simp: n shape_width_def shape_height_def switch_type_def)
  show ?thesis
    using assms(3) generateTarget_parts(3)[OF rc]
    by (simp add: n getBBox_size s del: generateTarget.simps)
qed

text \<open>
  A node of type \<^verbatim>\<open>marker\<close> does not reach that case, whose label is spelled
  \<^verbatim>\<open>'maker'\<close>: it takes the \<^verbatim>\<open>default\<close> branch, which reads \<^verbatim>\<open>attrs.width\<close> and
  \<^verbatim>\<open>attrs.height\<close> and never \<^verbatim>\<open>attrs.r\<close>.
\<close>

lemma marker_takes_default_branch:
  assumes "ntype n = ''marker''"
  shows "shape_width rt n =
           (if truthy (get (attrs n) ''width'') then get (attrs n) ''width'' else JUndefined)"
    and "shape_height rt n =
           (if truthy (get (attrs n) ''height'') then get (attrs n) ''height'' else JUndefined)"
  using assms by (simp_all add: shape_width_def shape_height_def switch_type_def Let_def)

text \<open>
  C8. A \<^verbatim>\<open>circle\<close> with \<^verbatim>\<open>r = 5\<close> gets a bbox of width and height 10, and so does a
  node whose type is spelled \<^verbatim>\<open>maker\<close>; a \<^verbatim>\<open>marker\<close> with \<^verbatim>\<open>r = 5\<close> gets a bbox
  of width and height 0.
\<close>

theorem marker_radius_is_ignored:
  "bbox (generateTarget sample_runtime (Node ''marker'' [(''r'', JNum 5)] None None) origin)
     = Some \<lparr>box_x = JNum 0, box_y = JNum 0, box_width = JNum 0, box_height = JNum 0\<rparr>
   \<and> bbox (generateTarget sample_runtime (Node ''circle'' [(''r'', JNum 5)] None None) origin)
     = Some \<lparr>box_x = JNum 0, box_y = JNum 0, box_width = JNum 10, box_height = JNum 10\<rparr>
   \<and> bbox (generateTarget sample_runtime (Node ''maker'' [(''r'', JNum 5)] None None) origin)
     = Some \<lparr>box_x = JNum 0, box_y = JNum 0, box_width = JNum 10, box_height = JNum 10\<rparr>"
  by code_simp









text \<open>
  C10. The geometry of the type reaches the bbox exactly when \<^verbatim>\<open>shapeWidth >= 0\<close>
  (\<^verbatim>\<open>shapeHeight >= 0\<close>) holds, a comparison JavaScript makes after converting to a number;
  otherwise the axis keeps the enclosing-box value. So a value that reads as \<^verbatim>\<open>NaN\<close> or
  as a negative number never reaches the bbox. In a tree whose margins and, on the nodes
  of the \<^verbatim>\<open>default\<close> branch, whose \<^verbatim>\<open>width\<close> and \<^verbatim>\<open>height\<close> are numbers where
  they are truthy, resolved at an offset of two numbers, the width and the height of every
  node's bbox are non-negative numbers, finite or \<^verbatim>\<open>Infinity\<close>.
\<close>

theorem sizes_nonnegative_for_numeric_geometry:
  "(numeric_geometry n \<and> num_offset offs \<longrightarrow> every_node box_ok (generateTarget rt n offs))
   \<and> box_width (fst (getBBox rt m lastOffset chilrenBBox)) =
       (if js_ge rt (shape_width rt m) (JNum 0) then shape_width rt m
        else js_or (box_width chilrenBBox) (JNum 0))
   \<and> box_height (fst (getBBox rt m lastOffset chilrenBBox)) =
       (if js_ge rt (shape_height rt m) (JNum 0) then shape_height rt m
        else js_or (box_height chilrenBBox) (JNum 0))"
  using layout_invariant(1)[of n offs rt] by (simp add: getBBox_size del: generateTarget.simps)

theorem sizes_nonnegative_for_numeric_geometry_witness:
  "numeric_geometry mixed_tree \<and> num_offset origin
   \<and> every_node box_ok (generateTarget sample_runtime mixed_tree origin)
   \<and> \<not> js_ge sample_runtime
         (shape_width sample_runtime (Node ''text'' [(''text'', JStr ''hi'')] None None)) (JNum 0)
   \<and> box_width (fst (getBBox sample_runtime (Node ''text'' [(''text'', JStr ''hi'')] None None)
         origin \<lparr>box_x = JNum 0, box_y = JNum 0, box_width = JNum 7, box_height = JNum 0\<rparr>))
       = JNum 7"
proof -
  have 1: "numeric_geometry mixed_tree" by code_simp
  have 2: "num_offset origin" by code_simp
  have 3: "\<not> js_ge sample_runtime
         (shape_width sample_runtime (Node ''text'' [(''text'', JStr ''hi'')] None None)) (JNum 0)"
    by code_simp
  show ?thesis
    using sizes_nonnegative_for_numeric_geometry[of mixed_tree origin sample_runtime
        "Node ''text'' [(''text'', JStr ''hi'')] None None" origin
        "\<lparr>box_x = JNum 0, box_y = JNum 0, box_width = JNum 7, box_height = JNum 0\<rparr>"]
      1 2 3
    by (simp add: js_or_def del: generateTarget.simps)
qed

text \<open>
  A value that is not a number but reads as a non-negative one passes the guard and is
  stored as it is: \<^verbatim>\<open>width: true\<close> gives a bbox whose width is \<^verbatim>\<open>true\<close>.
\<close>

theorem boolean_width_reaches_bbox:
  "bbox (generateTarget sample_runtime (Node ''rect'' [(''width'', JBool True)] None None) origin)
     = Some \<lparr>box_x = JNum 0, box_y = JNum 0, box_width = JBool True, box_height = JNum 0\<rparr>"
  by code_simp

text \<open>
  A string does the same, and the parent then adds the child's \<^verbatim>\<open>x\<close> to it with
  \<^verbatim>\<open>+\<close>, which concatenates: around a child of width \<^verbatim>\<open>'100'\<close> at \<^verbatim>\<open>x = 0\<close> the
  enclosing width is the string \<^verbatim>\<open>'1000'\<close>.
\<close>

lemma string_width_is_concatenated:
  "bbox (generateTarget sample_runtime
           (Node ''rect'' [] (Some [Node ''rect'' [(''width'', JStr ''100'')] None None]) None)
           origin)
     = Some \<lparr>box_x = JNum 0, box_y = JNum 0, box_width = JStr ''1000'', box_height = JNum 0\<rparr>"
  by code_simp

section \<open>Diff engine: the claims\<close>

lemma filter_put_key: "filter (\<lambda>p. fst p \<noteq> k) (put k v a) = filter (\<lambda>p. fst p \<noteq> k) a"
  unfolding put_def by (induction a) auto

lemma compare_nodes_eq:
  "compare_nodes (Node t a cs b) f =
     (let key = get (attrs f) ''key'';
          a1 = (if truthy key then put ''key'' key a else a);
          children1 = (case cs of None \<Rightarrow> []
                       | Some l \<Rightarrow> (case children f of None \<Rightarrow> []
                                    | Some m \<Rightarrow> fst (compare_children l m)));
          cs1 = (case cs of None \<Rightarrow> None
                 | Some l \<Rightarrow> (case children f of None \<Rightarrow> Some l
                              | Some m \<Rightarrow> Some (fst (snd (compare_children l m)))));
          fcs1 = (case cs of None \<Rightarrow> children f
                  | Some l \<Rightarrow> (case children f of None \<Rightarrow> None
                               | Some m \<Rightarrow> Some (snd (snd (compare_children l m)))));
          nowTarget = Node t a1 cs1 b;
          formerTarget1 = Node (ntype f) (attrs f) fcs1 (bbox f)
      in if ntype f \<noteq> t then (DRestructure nowTarget formerTarget1 key children1, nowTarget, formerTarget1)
         else if attrs_changed a1 (attrs f) then
           (DChange nowTarget children1 t key, nowTarget, formerTarget1)
         else (DSame children1 t key, nowTarget, formerTarget1))"
proof (cases cs)
  case None
  then show ?thesis by (simp add: Let_def)
next
  case (Some l)
  show ?thesis
  proof (cases "children f")
    case None
    then show ?thesis using Some by (simp add: Let_def split: list.splits)
  next
    case (Some m)
    show ?thesis
    proof (cases "l = [] \<and> m = []")
      case True
      then show ?thesis using \<open>cs = Some l\<close> Some by (simp add: Let_def)
    next
      case False
      then have "(case cs of Some (c # rest) \<Rightarrow> True | _ \<Rightarrow> False)
                \<or> (case children f of Some (c # rest) \<Rightarrow> True | _ \<Rightarrow> False)"
        using \<open>cs = Some l\<close> Some by (auto split: list.splits)
      then show ?thesis using \<open>cs = Some l\<close> Some
        by (simp add: Let_def split_beta)
    qed
  qed
qed

lemma compare_nodes_now:
  "fst (snd (compare_nodes (Node t a cs b) f)) =
     Node t (if truthy (get (attrs f) ''key'') then put ''key'' (get (attrs f) ''key'') a else a)
       (case cs of None \<Rightarrow> None
        | Some l \<Rightarrow> (case children f of None \<Rightarrow> Some l
                     | Some m \<Rightarrow> Some (fst (snd (compare_children l m))))) b"
  by (simp add: compare_nodes_eq Let_def del: compare_nodes.simps)

lemma compare_nodes_former:
  "snd (snd (compare_nodes (Node t a cs b) f)) =
     Node (ntype f) (attrs f)
       (case cs of None \<Rightarrow> children f
        | Some l \<Rightarrow> (case children f of None \<Rightarrow> None
                     | Some m \<Rightarrow> Some (snd (snd (compare_children l m))))) (bbox f)"
  by (simp add: compare_nodes_eq Let_def del: compare_nodes.simps)

lemma same_but_key_refl_aux:
  "m = n \<Longrightarrow> same_but_key n m" "ms = ns \<Longrightarrow> same_but_key_list ns ms"
  by (induction n m and ns ms rule: same_but_key_same_but_key_list.induct)
     (auto split: option.splits)

lemma same_but_key_refl: "same_but_key n n" "same_but_key_list ns ns"
  by (simp_all add: same_but_key_refl_aux)

lemma carry_keys_changes_only_key:
  "same_but_key n (carry_keys n f)"
  "same_but_key_list ns (carry_keys_list ns fs)"
  by (induction n f and ns fs rule: carry_keys_carry_keys_list.induct)
     (auto simp: filter_put_key same_but_key_refl split: option.splits)

lemma carry_keys_key:
  "get (attrs (carry_keys n f)) ''key'' = carried_key n (Some f)"
  by (cases n) (simp add: carried_key_def)

lemma compare_children_nil_right:
  "fst (snd (compare_children ns [])) = ns" "snd (snd (compare_children ns [])) = []"
  by (induction ns) (simp_all add: split_beta)

lemma compare_carries_keys:
  "fst (snd (compare_nodes n f)) = carry_keys n f"
  "fst (snd (compare_children ns fs)) = carry_keys_list ns fs"
proof (induction n f and ns fs rule: compare_nodes_compare_children.induct)
  case (1 t a cs b formerTarget)
  show ?case
  proof (cases cs)
    case None
    then show ?thesis by (simp add: compare_nodes_now del: compare_nodes.simps)
  next
    case (Some l)
    show ?thesis
    proof (cases "children formerTarget")
      case None
      then show ?thesis using Some by (simp add: compare_nodes_now del: compare_nodes.simps)
    next
      case (Some m)
      have "fst (snd (compare_children l m)) = carry_keys_list l m"
      proof (cases "l = [] \<and> m = []")
        case True
        then show ?thesis by simp
      next
        case False
        then have "(case cs of Some (c # rest) \<Rightarrow> True | _ \<Rightarrow> False)
                \<or> (case children formerTarget of Some (c # rest) \<Rightarrow> True | _ \<Rightarrow> False)"
          using \<open>cs = Some l\<close> Some by (auto split: list.splits)
        then show ?thesis using "1.IH"[OF refl refl _ \<open>cs = Some l\<close> Some] by simp
      qed
      then show ?thesis using \<open>cs = Some l\<close> Some
        by (simp add: compare_nodes_now del: compare_nodes.simps)
    qed
  qed
next
  case 2
  then show ?case by simp
next
  case (3 n ns)
  then show ?case by (simp add: compare_children_nil_right split_beta)
next
  case (4 f fs)
  then show ?case by (simp add: split_beta)
next
  case (5 n ns f fs)
  have "fst (snd (compare_children ns fs)) = carry_keys_list ns fs"
    using "5.IH"(2)[OF refl] by (cases "compare_nodes n f") simp
  then show ?case using "5.IH"(1) by (simp add: split_beta del: compare_nodes.simps)
qed

lemma compare_keeps_previous:
  "snd (snd (compare_nodes n f)) = f"
  "snd (snd (compare_children ns fs)) = fs"
proof (induction n f and ns fs rule: compare_nodes_compare_children.induct)
  case (1 t a cs b formerTarget)
  show ?case
  proof (cases cs)
    case None
    then show ?thesis by (simp add: compare_nodes_former del: compare_nodes.simps)
  next
    case (Some l)
    show ?thesis
    proof (cases "children formerTarget")
      case None
      then show ?thesis using Some
        by (cases formerTarget) (simp add: compare_nodes_former del: compare_nodes.simps)
    next
      case (Some m)
      have "snd (snd (compare_children l m)) = m"
      proof (cases "l = [] \<and> m = []")
        case True
        then show ?thesis by simp
      next
        case False
        then have "(case cs of Some (c # rest) \<Rightarrow> True | _ \<Rightarrow> False)
                \<or> (case children formerTarget of Some (c # rest) \<Rightarrow> True | _ \<Rightarrow> False)"
          using \<open>cs = Some l\<close> Some by (auto split: list.splits)
        then show ?thesis using "1.IH"[OF refl refl _ \<open>cs = Some l\<close> Some] by simp
      qed
      then show ?thesis using \<open>cs = Some l\<close> Some
        by (cases formerTarget) (simp add: compare_nodes_former del: compare_nodes.simps)
    qed
  qed
next
  case 2
  then show ?case by simp
next
  case (3 n ns)
  then show ?case by (simp add: compare_children_nil_right split_beta)
next
  case (4 f fs)
  then show ?case by (simp add: split_beta)
next
  case (5 n ns f fs)
  have "snd (snd (compare_children ns fs)) = fs"
    using "5.IH"(2)[OF refl] by (cases "compare_nodes n f") simp
  then show ?case using "5.IH"(1) by (simp add: split_beta del: compare_nodes.simps)
qed

lemma compare_children_length_left: "length (fst (compare_children ns [])) = length ns"
  by (induction ns) (simp_all add: split_beta)

lemma compare_children_length_right: "length (fst (compare_children [] fs)) = length fs"
  by (induction fs) (simp_all add: split_beta)

lemma compare_children_length:
  "length (fst (compare_children ns fs)) = max (length ns) (length fs)"
  by (induction ns fs rule: list_induct2')
     (simp_all add: compare_children_length_left compare_children_length_right split_beta
        del: compare_nodes.simps compare_children.simps(2,3))

lemma absent_side_gives_no_child_diffs:
  "children n = None \<or> children f = None \<Longrightarrow> diff_children (fst (compare_nodes n f)) = Some []"
  by (cases n) (auto simp: compare_nodes_eq Let_def simp del: compare_nodes.simps split: option.splits)

text \<open>
  C3. The list of child diffs has the length of the longer children list only when both
  nodes have a \<open>children\<close> field (\<open>compare_children_length\<close>). When one of them has
  none, \<^verbatim>\<open>Math.max\<close> is \<^verbatim>\<open>NaN\<close> and the list stays empty
  (\<open>absent_side_gives_no_child_diffs\<close>), where an empty array on the same side gives
  one \<^verbatim>\<open>add\<close>: a leaf that gains a child is diffed as unchanged.
\<close>

theorem absent_children_are_not_padded:
  "fst (compareTwoTarget (Some (Node ''rect'' [] (Some [Node ''circle'' [] None None]) None))
          (Some (Node ''rect'' [] None None)))
     = DSame [] ''rect'' JUndefined
   \<and> fst (compareTwoTarget (Some (Node ''rect'' [] (Some [Node ''circle'' [] None None]) None))
          (Some (Node ''rect'' [] (Some []) None)))
     = DSame [DAdd (Node ''circle'' [] None None) ''circle''] ''rect'' JUndefined"
  by code_simp

text \<open>
  C5. \<^verbatim>\<open>compareTwoTarget\<close> leaves the previous tree as it was. In the current tree it
  changes \<^verbatim>\<open>key\<close> attributes and nothing else: every current node that is compared with
  a present previous node whose \<^verbatim>\<open>attrs.key\<close> is truthy has that key after the call
  (the current tree after the call is \<open>carry_keys\<close> of the two trees), and the node
  types, the bboxes, the structure of the children and all other attributes are what they
  were before.
\<close>

theorem compareTwoTarget_changes_only_key:
  "(case compareTwoTarget nowTarget formerTarget of
      (d, now1, former1) \<Rightarrow>
        former1 = formerTarget
        \<and> now1 = (case nowTarget of
                    None \<Rightarrow> None
                  | Some n \<Rightarrow>
                      (case formerTarget of None \<Rightarrow> Some n | Some f \<Rightarrow> Some (carry_keys n f)))
        \<and> (case nowTarget of
              None \<Rightarrow> True
            | Some n \<Rightarrow> (case now1 of None \<Rightarrow> False | Some n1 \<Rightarrow> same_but_key n n1)))"
proof (cases nowTarget)
  case None
  then show ?thesis by (simp add: compareTwoTarget_def split: option.splits)
next
  case (Some n)
  show ?thesis
  proof (cases formerTarget)
    case None
    then show ?thesis using Some
      by (simp add: compareTwoTarget_def same_but_key_refl)
  next
    case (Some f)
    then show ?thesis
      using \<open>nowTarget = Some n\<close> compare_carries_keys(1)[of n f] compare_keeps_previous(1)[of n f]
        carry_keys_changes_only_key(1)[of n f]
      by (simp add: compareTwoTarget_def split_beta del: compare_nodes.simps)
  qed
qed

theorem compareTwoTarget_changes_only_key_witness:
  "(case compareTwoTarget (Some keyed_now) (Some keyed_previous) of
      (d, now1, former1) \<Rightarrow>
        former1 = Some keyed_previous
        \<and> now1 = (case Some keyed_now of
                    None \<Rightarrow> None
                  | Some n \<Rightarrow>
                      (case Some keyed_previous of
                         None \<Rightarrow> Some n
                       | Some f \<Rightarrow> Some (carry_keys n f)))
        \<and> (case Some keyed_now of
              None \<Rightarrow> True
            | Some n \<Rightarrow> (case now1 of None \<Rightarrow> False | Some n1 \<Rightarrow> same_but_key n n1)))
   \<and> carry_keys keyed_now keyed_previous =
       Node ''rect'' [(''key'', JStr ''b''), (''fill'', JStr ''red'')]
         (Some [Node ''circle'' [(''key'', JStr ''b-0''), (''r'', JNum 5)] None None,
                Node ''text'' [(''key'', JStr ''a-1'')] None None])
         None"
proof -
  have "carry_keys keyed_now keyed_previous =
       Node ''rect'' [(''key'', JStr ''b''), (''fill'', JStr ''red'')]
         (Some [Node ''circle'' [(''key'', JStr ''b-0''), (''r'', JNum 5)] None None,
                Node ''text'' [(''key'', JStr ''a-1'')] None None])
         None"
    by code_simp
  then show ?thesis
    using compareTwoTarget_changes_only_key
      [where nowTarget = "Some keyed_now" and formerTarget = "Some keyed_previous"]
    by (intro conjI)
qed

text \<open>
  The call is not free of side effects: the current node comes back with the key of the
  previous one.
\<close>

theorem compareTwoTarget_overwrites_key:
  "fst (snd (compareTwoTarget (Some (Node ''rect'' [(''key'', JStr ''a'')] None None))
          (Some (Node ''rect'' [(''key'', JStr ''b'')] None None))))
     = Some (Node ''rect'' [(''key'', JStr ''b'')] None None)
   \<and> attrs (Node ''rect'' [(''key'', JStr ''b'')] None None)
     \<noteq> attrs (Node ''rect'' [(''key'', JStr ''a'')] None None)"
  by code_simp

lemma erase_refs_primitive: "primitive (erase_refs v) \<Longrightarrow> erase_refs v = v"
  by (cases v) auto

lemma primitive_erase: "primitive v \<Longrightarrow> erase_refs v = v"
  by (cases v) auto

lemma erase_attrs_primitive:
  "list_all (\<lambda>p. primitive (snd p)) a \<Longrightarrow> map (\<lambda>(k, v). (k, erase_refs v)) a = a"
  by (induction a) (auto simp: primitive_erase)

lemma erase_attrs_eq_primitive:
  "map (\<lambda>(k, v). (k, erase_refs v)) a1 = a \<Longrightarrow> list_all (\<lambda>p. primitive (snd p)) a \<Longrightarrow> a1 = a"
proof (induction a1 arbitrary: a)
  case Nil
  then show ?case by simp
next
  case (Cons p ps)
  obtain k v where p: "p = (k, v)" by (cases p)
  from Cons.prems obtain q qs where a: "a = q # qs" by (cases a) auto
  have "primitive (erase_refs v)" "q = (k, erase_refs v)"
    using Cons.prems by (auto simp: a p)
  then have "q = p" using erase_refs_primitive[of v] by (simp add: p)
  moreover have "ps = qs" using Cons.IH[of qs] Cons.prems by (simp add: a)
  ultimately show ?case by (simp add: a)
qed

lemma deep_equal_primitive:
  "erase_node m = erase_node n \<Longrightarrow> every_node primitive_attrs n \<Longrightarrow> m = n"
  "map erase_node ms = map erase_node ns \<Longrightarrow> list_all (every_node primitive_attrs) ns \<Longrightarrow> ms = ns"
proof (induction n m and ns ms rule: same_but_key_same_but_key_list.induct)
  case (1 t a cs b m)
  obtain t1 a1 cs1 b1 where m: "m = Node t1 a1 cs1 b1" by (cases m)
  have pa: "list_all (\<lambda>p. primitive (snd p)) a"
    using "1.prems"(2) by (simp add: primitive_attrs_def)
  have e: "t1 = t" "b1 = b"
    "map (\<lambda>(k, v). (k, erase_refs v)) a1 = map (\<lambda>(k, v). (k, erase_refs v)) a"
    "(case cs1 of None \<Rightarrow> None | Some l \<Rightarrow> Some (map erase_node l))
      = (case cs of None \<Rightarrow> None | Some l \<Rightarrow> Some (map erase_node l))"
    using "1.prems"(1) by (simp_all add: m)
  have "a1 = a"
    using e(3) pa erase_attrs_eq_primitive[of a1 a] by (simp add: erase_attrs_primitive)
  moreover have "cs1 = cs"
  proof (cases cs)
    case None
    then show ?thesis using e(4) by (simp split: option.splits)
  next
    case (Some l)
    then obtain l1 where l1: "cs1 = Some l1" "map erase_node l1 = map erase_node l"
      using e(4) by (auto split: option.splits)
    have "list_all (every_node primitive_attrs) l" using "1.prems"(2) Some by simp
    then have "l1 = l" using "1.IH"[OF Some, of l1] l1 by (simp add: m)
    then show ?thesis using Some l1 by simp
  qed
  ultimately show ?case using e(1,2) by (simp add: m)
next
  case (2 ms)
  then show ?case by simp
next
  case (3 n ns ms)
  then show ?case by (cases ms) auto
qed

lemma get_put_same_value: "get (put k (get a k) a) e = get a e"
  by (simp add: get_def put_def update_conv')

lemma keys_put: "e \<in> set (object_keys a) \<Longrightarrow> e \<in> set (object_keys (put k v a))"
  by (auto simp: object_keys_def put_def update_keys)

lemma primitive_get:
  "list_all (\<lambda>p. primitive (snd p)) a \<Longrightarrow> e \<in> set (object_keys a) \<Longrightarrow> primitive (get a e)"
proof -
  assume a: "list_all (\<lambda>p. primitive (snd p)) a" and e: "e \<in> set (object_keys a)"
  then have "map_of a e \<noteq> None"
    by (simp add: object_keys_def map_of_eq_None_iff)
  then obtain v where v: "map_of a e = Some v" by auto
  then have "(e, v) \<in> set a" by (rule map_of_SomeD)
  then have "primitive v" using a by (auto simp: list_all_iff)
  then show ?thesis by (simp add: get_def v)
qed

lemma strict_eq_primitive: "primitive v \<Longrightarrow> strict_eq v v"
  by (cases v) auto

lemma attrs_unchanged:
  assumes "list_all (\<lambda>p. primitive (snd p)) a"
  shows "\<not> attrs_changed (if truthy (get a ''key'') then put ''key'' (get a ''key'') a else a) a"
  using assms
  by (auto simp: attrs_changed_def list_ex_iff get_put_same_value keys_put
      intro: strict_eq_primitive primitive_get)

lemma reflexive_diff:
  "f = n \<Longrightarrow> every_node primitive_attrs n \<Longrightarrow> all_same (fst (compare_nodes n f))"
  "fs = ns \<Longrightarrow> list_all (every_node primitive_attrs) ns
     \<Longrightarrow> list_all all_same (fst (compare_children ns fs))"
proof (induction n f and ns fs rule: compare_nodes_compare_children.induct)
  case (1 t a cs b formerTarget)
  have pa: "list_all (\<lambda>p. primitive (snd p)) a"
    using "1.prems"(2) by (simp add: primitive_attrs_def)
  have kids: "list_all all_same (case cs of None \<Rightarrow> []
                       | Some l \<Rightarrow> fst (compare_children l l))"
  proof (cases cs)
    case None
    then show ?thesis by simp
  next
    case (Some l)
    have "list_all all_same (fst (compare_children l l))"
    proof (cases "l = []")
      case True
      then show ?thesis by simp
    next
      case False
      then have "(case cs of Some (c # rest) \<Rightarrow> True | _ \<Rightarrow> False)
                \<or> (case children formerTarget of Some (c # rest) \<Rightarrow> True | _ \<Rightarrow> False)"
        using Some by (auto split: list.splits)
      moreover have "children formerTarget = Some l" using "1.prems"(1) Some by simp
      moreover have "list_all (every_node primitive_attrs) l" using "1.prems"(2) Some by simp
      ultimately show ?thesis using "1.IH"[OF refl refl _ Some, of l] by simp
    qed
    then show ?thesis using Some by simp
  qed
  have "(case cs of None \<Rightarrow> []
         | Some l \<Rightarrow> (case children (Node t a cs b) of None \<Rightarrow> []
                      | Some m \<Rightarrow> fst (compare_children l m)))
        = (case cs of None \<Rightarrow> [] | Some l \<Rightarrow> fst (compare_children l l))"
    by (simp split: option.splits)
  then show ?case
    using kids attrs_unchanged[OF pa]
    by (simp add: "1.prems"(1) compare_nodes_eq Let_def del: compare_nodes.simps)
next
  case 2
  then show ?case by simp
next
  case (3 n ns)
  then show ?case by simp
next
  case (4 f fs)
  then show ?case by simp
next
  case (5 n ns f fs)
  have "list_all all_same (fst (compare_children ns fs))"
    using "5.IH"(2)[OF refl] "5.prems" by (cases "compare_nodes n f") simp
  then show ?case using "5.IH"(1) "5.prems" by (simp add: split_beta del: compare_nodes.simps)
qed

text \<open>
  C7. For every tree whose attribute values are primitive values other than \<^verbatim>\<open>NaN\<close> and
  every deep-equal copy of it, the diff of the two is \<^verbatim>\<open>same\<close> at every node.
\<close>

theorem diff_of_primitive_copy_is_same:
  assumes "deep_equal T T1" "every_node primitive_attrs T"
  shows "all_same (fst (compareTwoTarget (Some T) (Some T1)))"
proof -
  have "T1 = T" using assms deep_equal_primitive(1)[of T1 T] by (simp add: deep_equal_def)
  then show ?thesis
    using reflexive_diff(1)[of T T] assms(2)
    by (simp add: compareTwoTarget_def split_beta del: compare_nodes.simps)
qed

theorem diff_of_primitive_copy_is_same_witness:
  "deep_equal plain_tree plain_tree \<and> every_node primitive_attrs plain_tree
   \<and> all_same (fst (compareTwoTarget (Some plain_tree) (Some plain_tree)))"
proof -
  have 1: "deep_equal plain_tree plain_tree" by code_simp
  have 2: "every_node primitive_attrs plain_tree" by code_simp
  show ?thesis using diff_of_primitive_copy_is_same[OF 1 2] 1 2 by blast
qed

text \<open>
  Attribute values are compared with \<^verbatim>\<open>!==\<close>, so an object-valued attribute differs from
  its own copy: two deep-equal trees with such an attribute give \<^verbatim>\<open>change\<close>.
\<close>

theorem diff_of_object_copy_is_change:
  "deep_equal (styled 1) (styled 2)
   \<and> diff_action (fst (compareTwoTarget (Some (styled 1)) (Some (styled 2)))) = ''change''"
  by code_simp

text \<open>
  \<^verbatim>\<open>NaN !== NaN\<close> holds as well, so a tree with an attribute that is \<^verbatim>\<open>NaN\<close> differs
  from itself.
\<close>

lemma diff_of_nan_attribute_is_change:
  "diff_action (fst (compareTwoTarget (Some (Node ''rect'' [(''opacity'', JNaN)] None None))
                       (Some (Node ''rect'' [(''opacity'', JNaN)] None None)))) = ''change''"
  by code_simp

section \<open>Patch engine: the claims\<close>

lemma fold_keeps:
  "(\<And>x c. x \<in> set l \<Longrightarrow> I c \<Longrightarrow> I (f x c)) \<Longrightarrow> I c \<Longrightarrow> I (fold f l c)"
  by (induction l arbitrary: c) auto

lemma renderTarget_skips_group: "no_group_shape c \<Longrightarrow> no_group_shape (renderTarget n c)"
proof (induction n c rule: renderTarget.induct)
  case (1 t a cs b c)
  define c1 where "c1 = (if t \<noteq> ''group'' then host_addShape t a c else c)"
  have c1: "no_group_shape c1"
    using "1.prems" by (simp add: c1_def no_group_shape_def host_addShape_def)
  show ?case
  proof (cases cs)
    case None
    then show ?thesis using c1 by (simp add: c1_def)
  next
    case (Some l)
    have "no_group_shape (fold renderTarget l c1)"
      using "1.IH"[OF c1_def Some] c1 by (rule fold_keeps)
    then show ?thesis using Some by (simp add: c1_def)
  qed
qed

lemma change_of_missing_shape_is_skipped:
  "find_shape key c = None \<Longrightarrow> updateTarget (DChange v [] t key) c = c"
  by simp

lemma calls_grow_addShape: "h \<in> set (calls c) \<Longrightarrow> h \<in> set (calls (addShape n c))"
proof (induction n c rule: addShape.induct)
  case (1 t a cs b c)
  have c1: "h \<in> set (calls (host_addShape t a c))"
    using "1.prems" by (simp add: host_addShape_def)
  show ?case
  proof (cases cs)
    case None
    then show ?thesis using c1 by simp
  next
    case (Some l)
    have "h \<in> set (calls (fold addShape l (host_addShape t a c)))"
      using "1.IH"[OF refl Some] c1 by (rule fold_keeps)
    then show ?thesis using Some by simp
  qed
qed

lemma addShape_creates_every_type:
  "AddShape (ntype n) (attrs n) \<in> set (calls (addShape n c))"
proof (cases n)
  case (Node t a cs b)
  have c1: "AddShape t a \<in> set (calls (host_addShape t a c))"
    by (simp add: host_addShape_def)
  show ?thesis
  proof (cases cs)
    case None
    then show ?thesis using c1 Node by simp
  next
    case (Some l)
    have "AddShape t a \<in> set (calls (fold addShape l (host_addShape t a c)))"
      using calls_grow_addShape c1 by (rule fold_keeps)
    then show ?thesis using Some Node by simp
  qed
qed

lemma calls_grow_delShape: "h \<in> set (calls c) \<Longrightarrow> h \<in> set (calls (delShape n c))"
proof (induction n c rule: delShape.induct)
  case (1 t a cs b c)
  define c1 where "c1 = host_removeChild (find_shape (get a ''key'') c) c"
  have c1: "h \<in> set (calls c1)"
    using "1.prems" by (simp add: c1_def host_removeChild_def)
  show ?case
  proof (cases cs)
    case None
    then show ?thesis using c1 by (simp add: c1_def)
  next
    case (Some l)
    have "h \<in> set (calls (fold delShape l c1))"
      using "1.IH"[OF refl c1_def Some] c1 by (rule fold_keeps)
    then show ?thesis using Some by (simp add: c1_def)
  qed
qed

lemma delShape_of_missing_shape:
  assumes "find_shape (get (attrs n) ''key'') c = None"
  shows "RemoveChild None \<in> set (calls (delShape n c))"
proof (cases n)
  case (Node t a cs b)
  define c1 where "c1 = host_removeChild (find_shape (get a ''key'') c) c"
  have c1: "RemoveChild None \<in> set (calls c1)"
    using assms by (simp add: c1_def host_removeChild_def Node)
  show ?thesis
  proof (cases cs)
    case None
    then show ?thesis using c1 Node by (simp add: c1_def)
  next
    case (Some l)
    have "RemoveChild None \<in> set (calls (fold delShape l c1))"
      using calls_grow_delShape c1 by (rule fold_keeps)
    then show ?thesis using Some Node by (simp add: c1_def)
  qed
qed

text \<open>
  C4. The initial draw never creates a shape of type \<^verbatim>\<open>group\<close>
  (\<open>renderTarget_skips_group\<close>), but the update does: \<^verbatim>\<open>addShape\<close> creates a shape
  for a node of any type (\<open>addShape_creates_every_type\<close>), so adding a subtree with a
  \<^verbatim>\<open>group\<close> below its root creates a host shape for the group.
\<close>

theorem update_adds_group_shape:
  "\<not> no_group_shape
        (updateTarget (fst (compareTwoTarget (Some stack_with_nested_group) (Some stack_of_one)))
           (drawn stack_of_one))
   \<and> no_group_shape (renderTarget stack_with_nested_group empty_container)"
  by code_simp

text \<open>
  C6. A \<^verbatim>\<open>change\<close> whose shape is missing issues no call
  (\<open>change_of_missing_shape_is_skipped\<close>); a \<^verbatim>\<open>delete\<close> does: \<^verbatim>\<open>delShape\<close> passes
  the result of \<^verbatim>\<open>find\<close> to \<^verbatim>\<open>removeChild\<close> without a test
  (\<open>delShape_of_missing_shape\<close>). Deleting a \<^verbatim>\<open>group\<close> node, which was never drawn,
  calls \<^verbatim>\<open>removeChild(undefined)\<close>.
\<close>

theorem delete_of_missing_shape_calls_removeChild:
  "calls (updateTarget (fst (compareTwoTarget (Some stack_of_one) (Some stack_with_group)))
            (drawn stack_with_group))
     = [RemoveChild None]"
  by code_simp

section \<open>Tree builder: the claims\<close>

lemma set_attributes_style_fatal:
  "(k, v) \<in> set names \<Longrightarrow> keyConvert k = ''style'' \<Longrightarrow> json5 v = None
     \<Longrightarrow> \<exists>e. set_attributes json5 names st = Inl e"
proof (induction names arbitrary: st)
  case Nil
  then show ?case by simp
next
  case (Cons p ps)
  obtain k1 v1 where p: "p = (k1, v1)" by (cases p)
  obtain a r where st: "st = (a, r)" by (cases st)
  show ?case
  proof (cases "(k, v) = p")
    case True
    then show ?thesis using Cons.prems by (simp add: p st)
  next
    case False
    then have "(k, v) \<in> set ps" using Cons.prems(1) by simp
    then have "\<And>st1. \<exists>e. set_attributes json5 ps st1 = Inl e"
      using Cons.IH Cons.prems(2,3) by blast
    then show ?thesis by (simp add: p st Let_def split: option.splits)
  qed
qed

lemma malformed_style_is_fatal:
  "(k, v) \<in> set names \<Longrightarrow> keyConvert k = ''style'' \<Longrightarrow> json5 v = None
     \<Longrightarrow> \<exists>e. parseXML json5 (Element tag names text kids) = Inl e"
proof -
  assume "(k, v) \<in> set names" "keyConvert k = ''style''" "json5 v = None"
  then have "\<And>st. \<exists>e. set_attributes json5 names st = Inl e"
    by (rule set_attributes_style_fatal)
  then have ne: "\<And>st r. set_attributes json5 names st \<noteq> Inr r"
    by (metis sum.distinct(1))
  show ?thesis
    by (cases "parse_children json5 kids") (simp_all add: Let_def ne split: sum.splits)
qed

lemma malformed_attrs_is_skipped:
  "keyConvert k = ''attrs'' \<Longrightarrow> json5 v = None
     \<Longrightarrow> set_attributes json5 ((k, v) # rest) (a, r)
         = set_attributes json5 rest (a, AList.update ''attrs'' (PValue (JStr v)) r)"
  by simp

text \<open>
  C1. A \<^verbatim>\<open>style\<close> value that does not parse is fatal (\<open>malformed_style_is_fatal\<close>).
  An \<^verbatim>\<open>attrs\<close> value that does not parse is not: the \<^verbatim>\<open>catch\<close> block rethrows for
  \<^verbatim>\<open>style\<close> only and the loop goes on (\<open>malformed_attrs_is_skipped\<close>), the raw string
  it stores under \<^verbatim>\<open>attrs\<close> is overwritten after the loop, and the node is built as if
  the attribute were not there.
\<close>

theorem malformed_attrs_is_swallowed:
  "parseXML sample_json5 (Element ''RECT'' [(''attrs'', ''{'')] [] [])
     = Inr (XNode [(''type'', PValue (JStr ''rect'')), (''attrs'', PAttrs [])])
   \<and> parseXML sample_json5 (Element ''RECT'' [(''style'', ''{'')] [] [])
     = Inl (SyntaxError ''{'')
   \<and> parseXML sample_json5 (Element ''RECT'' [(''attrs'', ''{r: 5}''), (''width'', ''12'')] [] [])
     = Inr (XNode [(''type'', PValue (JStr ''rect'')), (''width'', PValue (JNum 12)),
                   (''attrs'', PAttrs [(''r'', JNum 5)])])"
  by code_simp

section \<open>Template interpolation: the claims\<close>

lemma split_braces_plain:
  "list_all (\<lambda>c. c \<noteq> CHR ''{'' \<and> c \<noteq> CHR ''}'') s \<Longrightarrow> split_braces acc s = [rev acc @ s]"
  by (induction acc s rule: split_braces.induct) auto

lemma is_path_no_brace:
  "is_path s \<Longrightarrow> list_all (\<lambda>c. c \<noteq> CHR ''{'' \<and> c \<noteq> CHR ''}'') s"
  by (auto simp: is_path_def is_word_char_def list_all_iff Let_def)

lemma dropWhile_none: "list_all (\<lambda>c. \<not> P c) s \<Longrightarrow> dropWhile P s = s"
  by (cases s) auto

lemma is_path_no_space: "is_path s \<Longrightarrow> list_all (\<lambda>c. \<not> is_space c) s"
  by (auto simp: is_path_def is_word_char_def is_space_def list_all_iff Let_def)

lemma trim_path: "is_path s \<Longrightarrow> trim s = s"
proof -
  assume p: "is_path s"
  have 1: "dropWhile is_space s = s" using is_path_no_space[OF p] by (rule dropWhile_none)
  have "list_all (\<lambda>c. \<not> is_space c) (rev s)" using is_path_no_space[OF p] by (simp add: list_all_iff)
  then have 2: "dropWhile is_space (rev s) = rev s" by (rule dropWhile_none)
  show ?thesis by (simp add: trim_def 1 2)
qed

lemma bare_path_is_looked_up:
  "is_path xml \<Longrightarrow> xmlDataRenderer xml data = (case data xml of Some v \<Rightarrow> v | None \<Rightarrow> xml)"
  by (simp add: xmlDataRenderer_def split_braces_plain[OF is_path_no_brace] trim_path)

text \<open>
  C9. Every piece between two delimiters is looked up, whether it stood inside
  \<^verbatim>\<open>{{ }}\<close> or outside: a template that is a bare path, with no delimiter at all, is
  replaced by the value at that path (\<open>bare_path_is_looked_up\<close>), and in
  \<^verbatim>\<open>{{x}}y\<close> the text \<^verbatim>\<open>y\<close> after the token is replaced by the value of
  \<^verbatim>\<open>data.y\<close>.
\<close>

theorem text_outside_braces_is_looked_up:
  "xmlDataRenderer ''{{x}}y''
     (\<lambda>p. if p = ''x'' then Some ''1'' else if p = ''y'' then Some ''2'' else None)
     = ''12''"
  by code_simp

end
